theory Spec2Isabelle
  imports Main "HOL-Library.Word"
begin

unbundle bit_operations_syntax

section \<open>Failures that stop the process\<close>

text \<open>
  \<open>i_assert\<close> panics when its condition is false; a read through a record pointer that
  lies outside the used part of the record array, or through a null pointer, has no
  defined result. All three are values of the model, so that a function that runs into
  one does not return anything else.
\<close>

datatype failure = Assert_failed string | Out_of_bounds_read | Null_dereference

type_synonym uint32 = "32 word"

section \<open>Mail index record array (mail-index-util.c)\<close>

record mail_index_record =
  uid :: uint32
  msg_flags :: uint32

datatype mail_lock_type = MAIL_LOCK_UNLOCK | MAIL_LOCK_SHARED | MAIL_LOCK_EXCLUSIVE

text \<open>
  \<open>records\<close> is the used part of the mapped record array, from \<open>INDEX_RECORD_AT(index, 0)\<close>
  up to \<open>INDEX_END_RECORD(index)\<close>; a record pointer is the position in this list.
  \<open>flag_changes\<close> collects the notifications passed to \<open>mail_index_mark_flag_changes\<close>.
\<close>

record mail_index =
  lock_type :: mail_lock_type
  messages_count :: uint32
  records :: "mail_index_record list"
  flag_changes :: "(mail_index_record \<times> uint32 \<times> uint32) list"

definition MAIL_INDEX_RECORD_COUNT :: "mail_index \<Rightarrow> nat" where
  "MAIL_INDEX_RECORD_COUNT index = length (records index)"

text \<open>
  The \<open>while\<close> loop of \<open>mail_index_lookup_uid_range\<close>. The indices are \<open>unsigned int\<close>:
  the sum of the two bounds and the increment wrap at \<open>2 ^ 32\<close>. The result is the value
  of \<open>idx\<close> when the loop is left.
\<close>

partial_function (option) uid_search_loop ::
  "mail_index_record list \<Rightarrow> uint32 \<Rightarrow> nat \<Rightarrow> nat \<Rightarrow> nat \<Rightarrow> (failure + nat) option" where
  "uid_search_loop rec_p first_uid idx left_idx right_idx =
     (if left_idx < right_idx then
        (let idx' = ((left_idx + right_idx) mod 2 ^ 32) div 2 in
         if length rec_p \<le> idx' then Some (Inl Out_of_bounds_read)
         else if uid (rec_p ! idx') < first_uid then
           uid_search_loop rec_p first_uid idx' ((idx' + 1) mod 2 ^ 32) right_idx
         else if uid (rec_p ! idx') > first_uid then
           uid_search_loop rec_p first_uid idx' left_idx idx'
         else Some (Inr idx'))
      else Some (Inr idx))"

declare uid_search_loop.simps [code]

text \<open>
  The result is the record found (the target of the returned pointer) with the value
  stored to \<open>seq_r\<close>, or \<open>(None, 0)\<close> for the null pointer.
\<close>

definition mail_index_lookup_uid_range ::
  "mail_index \<Rightarrow> uint32 \<Rightarrow> uint32 \<Rightarrow> (failure + (mail_index_record option \<times> nat)) option" where
  "mail_index_lookup_uid_range index first_uid last_uid =
     (if lock_type index = MAIL_LOCK_UNLOCK then
        Some (Inl (Assert_failed ''index->lock_type != MAIL_LOCK_UNLOCK''))
      else if \<not> first_uid > 0 then Some (Inl (Assert_failed ''first_uid > 0''))
      else if \<not> first_uid \<le> last_uid then Some (Inl (Assert_failed ''first_uid <= last_uid''))
      else
        (let rec_p = records index; idx_limit = MAIL_INDEX_RECORD_COUNT index in
         case uid_search_loop rec_p first_uid 0 0 idx_limit of
           None \<Rightarrow> None
         | Some (Inl e) \<Rightarrow> Some (Inl e)
         | Some (Inr idx) \<Rightarrow>
             if length rec_p \<le> idx then Some (Inl Out_of_bounds_read)
             else if uid (rec_p ! idx) < first_uid \<or> uid (rec_p ! idx) > last_uid then
               (let idx1 = (idx + 1) mod 2 ^ 32 in
                if idx1 = idx_limit then Some (Inr (None, 0))
                else if length rec_p \<le> idx1 then Some (Inl Out_of_bounds_read)
                else if uid (rec_p ! idx1) < first_uid \<or> uid (rec_p ! idx1) > last_uid then
                  Some (Inr (None, 0))
                else Some (Inr (Some (rec_p ! idx1), (idx1 + 1) mod 2 ^ 32)))
             else Some (Inr (Some (rec_p ! idx), (idx + 1) mod 2 ^ 32))))"

text \<open>
  What the specification asks of \<open>lookup_uid_range\<close>, written from its words: the record
  with the smallest sequence number whose UID lies in the range, with that one-based
  sequence number, or \<open>(None, 0)\<close> when there is none.
\<close>

definition in_uid_range :: "uint32 \<Rightarrow> uint32 \<Rightarrow> mail_index_record \<Rightarrow> bool" where
  "in_uid_range u1 u2 r = (u1 \<le> uid r \<and> uid r \<le> u2)"

definition lookup_uid_range_spec ::
  "mail_index_record list \<Rightarrow> uint32 \<Rightarrow> uint32 \<Rightarrow> mail_index_record option \<times> nat" where
  "lookup_uid_range_spec recs u1 u2 =
     (let k = length (takeWhile (\<lambda>r. \<not> in_uid_range u1 u2 r) recs)
      in if k < length recs then (Some (recs ! k), k + 1) else (None, 0))"

text \<open>The state in which the binary search can leave \<open>idx\<close> on a sorted array.\<close>

definition search_post :: "mail_index_record list \<Rightarrow> uint32 \<Rightarrow> nat \<Rightarrow> bool" where
  "search_post rec_p first_uid k =
     (k < length rec_p \<and>
      (uid (rec_p ! k) = first_uid
       \<or> (first_uid < uid (rec_p ! k) \<and> (\<forall>i<k. uid (rec_p ! i) < first_uid))
       \<or> (uid (rec_p ! k) < first_uid \<and>
           (\<forall>i. k < i \<and> i < length rec_p \<longrightarrow> first_uid < uid (rec_p ! i)))))"

definition mail_index_lookup :: "mail_index \<Rightarrow> nat \<Rightarrow> failure + mail_index_record option" where
  "mail_index_lookup index seq =
     (if lock_type index = MAIL_LOCK_UNLOCK then
        Inl (Assert_failed ''index->lock_type != MAIL_LOCK_UNLOCK'')
      else if \<not> seq > 0 then Inl (Assert_failed ''seq > 0'')
      else if seq > unat (messages_count index) then Inr None
      else if length (records index) \<le> seq - 1 then Inl Out_of_bounds_read
      else Inr (Some (records index ! (seq - 1))))"

text \<open>
  Modelled from the spec: \<open>mail_index_mark_flag_changes\<close> is declared outside the sources;
  the specification says that it emits a flag-change notification \<open>old_flags \<rightarrow> new_flags\<close>
  for the record.
\<close>

definition mail_index_mark_flag_changes ::
  "mail_index \<Rightarrow> mail_index_record \<Rightarrow> uint32 \<Rightarrow> uint32 \<Rightarrow> mail_index" where
  "mail_index_mark_flag_changes index rec old_flags new_flags =
     index\<lparr>flag_changes := flag_changes index @ [(rec, old_flags, new_flags)]\<rparr>"

text \<open>
  \<open>memmove(rec + dst, rec + src, n * sizeof(*rec))\<close> on the record array: \<open>n\<close> records
  starting at \<open>src\<close> are copied over the records starting at \<open>dst\<close>.
\<close>

definition memmove_records ::
  "mail_index_record list \<Rightarrow> nat \<Rightarrow> nat \<Rightarrow> nat \<Rightarrow> mail_index_record list" where
  "memmove_records rec dst src n = take dst rec @ take n (drop src rec) @ drop (dst + n) rec"

text \<open>
  \<open>compress\<close> moves the tail down and takes \<open>count\<close> records off the used length
  (\<open>used_file_size\<close> and \<open>mmap_used_length\<close> both shrink by \<open>sizeof(*rec) * count\<close>).
  Its result is that of \<open>mail_index_truncate\<close>, which is outside the sources and is
  passed in as \<open>truncate_ret\<close>.
\<close>

definition compress :: "int \<Rightarrow> mail_index \<Rightarrow> nat \<Rightarrow> nat \<Rightarrow> int \<times> mail_index" where
  "compress truncate_ret index remove_first_idx remove_last_idx =
     (let rec = records index;
          idx_limit = MAIL_INDEX_RECORD_COUNT index;
          count = remove_last_idx - remove_first_idx + 1;
          moved = memmove_records rec remove_first_idx (remove_last_idx + 1)
                    (idx_limit - remove_last_idx - 1)
      in (truncate_ret, index\<lparr>records := take (idx_limit - count) moved\<rparr>))"

text \<open>
  The loop \<open>for (rec = first_rec; rec <= last_rec; rec++)\<close> of
  \<open>mail_index_expunge_record_range\<close>, over the positions of the records.
\<close>

definition expunge_mark_loop :: "mail_index \<Rightarrow> nat \<Rightarrow> nat \<Rightarrow> mail_index" where
  "expunge_mark_loop index first_idx last_idx =
     foldl (\<lambda>ix i. mail_index_mark_flag_changes ix (records ix ! i)
                       (msg_flags (records ix ! i)) 0)
       index [first_idx..<last_idx + 1]"

text \<open>
  \<open>first_idx\<close> and \<open>last_idx\<close> are \<open>INDEX_RECORD_INDEX\<close> of the two record pointers.
\<close>

definition mail_index_expunge_record_range ::
  "int \<Rightarrow> mail_index \<Rightarrow> nat \<Rightarrow> nat \<Rightarrow> failure + (int \<times> mail_index)" where
  "mail_index_expunge_record_range truncate_ret index first_idx last_idx =
     (if lock_type index \<noteq> MAIL_LOCK_EXCLUSIVE then
        Inl (Assert_failed ''index->lock_type == MAIL_LOCK_EXCLUSIVE'')
      else
        (let idx_limit = MAIL_INDEX_RECORD_COUNT index in
         if \<not> first_idx \<le> last_idx then Inl (Assert_failed ''first_idx <= last_idx'')
         else if \<not> last_idx < idx_limit then Inl (Assert_failed ''last_idx < idx_limit'')
         else
           (let index1 = index\<lparr>messages_count :=
                             messages_count index - of_nat (last_idx - first_idx + 1)\<rparr>;
                index2 = expunge_mark_loop index1 first_idx last_idx
            in Inr (compress truncate_ret index2 first_idx last_idx))))"

section \<open>The operating system, as far as the save code uses it\<close>

datatype errno = ENOENT | EEXIST | ENOSPC | EDQUOT | EIO | EACCES

text \<open>
  Modelled from the spec: the macro \<open>ENOSPACE\<close> is defined outside the sources; the
  specification calls it a space-exhaustion error.
\<close>

definition ENOSPACE :: "errno \<Rightarrow> bool" where
  "ENOSPACE e = (e = ENOSPC \<or> e = EDQUOT)"

datatype call =
  Link string string | Unlink string | Utime string int int | Fsync int | Close int
  | Open_tmp string

datatype storage_message = Storage_error string | Storage_critical string

text \<open>
  \<open>names\<close> are the directory entries (path to inode), \<open>mtime\<close> the modification time of
  an inode, \<open>calls\<close> the system calls made so far (oldest first), \<open>fault\<close> the calls that
  the system refuses with an error of its own (disk full, I/O error), \<open>storage_message\<close>
  the last message set on the mail storage.
\<close>

record world =
  names :: "string \<rightharpoonup> nat"
  mtime :: "nat \<rightharpoonup> int"
  calls :: "call list"
  fault :: "call \<Rightarrow> errno option"
  storage_message :: "storage_message option"
  ioloop_time :: int

definition sys_link :: "world \<Rightarrow> string \<Rightarrow> string \<Rightarrow> errno option \<times> world" where
  "sys_link w oldpath newpath =
     (let w' = w\<lparr>calls := calls w @ [Link oldpath newpath]\<rparr> in
      case fault w (Link oldpath newpath) of
        Some e \<Rightarrow> (Some e, w')
      | None \<Rightarrow>
          (case names w oldpath of
             None \<Rightarrow> (Some ENOENT, w')
           | Some ino \<Rightarrow>
               if names w newpath \<noteq> None then (Some EEXIST, w')
               else (None, w'\<lparr>names := (names w)(newpath \<mapsto> ino)\<rparr>)))"

definition sys_unlink :: "world \<Rightarrow> string \<Rightarrow> errno option \<times> world" where
  "sys_unlink w path =
     (let w' = w\<lparr>calls := calls w @ [Unlink path]\<rparr> in
      case fault w (Unlink path) of
        Some e \<Rightarrow> (Some e, w')
      | None \<Rightarrow>
          (case names w path of
             None \<Rightarrow> (Some ENOENT, w')
           | Some ino \<Rightarrow> (None, w'\<lparr>names := (names w)(path := None)\<rparr>)))"

definition sys_utime :: "world \<Rightarrow> string \<Rightarrow> int \<Rightarrow> int \<Rightarrow> errno option \<times> world" where
  "sys_utime w path actime modtime =
     (let w' = w\<lparr>calls := calls w @ [Utime path actime modtime]\<rparr> in
      case fault w (Utime path actime modtime) of
        Some e \<Rightarrow> (Some e, w')
      | None \<Rightarrow>
          (case names w path of
             None \<Rightarrow> (Some ENOENT, w')
           | Some ino \<Rightarrow> (None, w'\<lparr>mtime := (mtime w)(ino \<mapsto> modtime)\<rparr>)))"

definition sys_fsync :: "world \<Rightarrow> int \<Rightarrow> errno option \<times> world" where
  "sys_fsync w fd = (fault w (Fsync fd), w\<lparr>calls := calls w @ [Fsync fd]\<rparr>)"

definition sys_close :: "world \<Rightarrow> int \<Rightarrow> errno option \<times> world" where
  "sys_close w fd = (fault w (Close fd), w\<lparr>calls := calls w @ [Close fd]\<rparr>)"

definition mail_storage_set_error :: "world \<Rightarrow> string \<Rightarrow> world" where
  "mail_storage_set_error w msg = w\<lparr>storage_message := Some (Storage_error msg)\<rparr>"

definition mail_storage_set_critical :: "world \<Rightarrow> string \<Rightarrow> world" where
  "mail_storage_set_critical w msg = w\<lparr>storage_message := Some (Storage_critical msg)\<rparr>"

section \<open>Transactional maildir save (maildir-save.c)\<close>

record istream =
  unread :: string

record ostream =
  crlf :: bool
  ostream_fd :: int
  stream_errno :: "errno option"

record index_mailbox =
  path :: string
  keep_recent :: bool
  mail_create_mode :: nat

text \<open>
  The functions and the constant that the save code uses and that are defined outside
  the sources. \<open>'u\<close> is the state they keep: the UID list, the index and the index
  transaction. The code is modelled for every value of these fields.
  \<open>maildir_uidlist_sync_next\<close> is always called with the same flags (\<open>NEW_DIR\<close> and
  \<open>RECENT\<close>), which are left out; \<open>mail_index_append_assign_uids\<close> returns the value it
  stores to \<open>last_uid\<close>.
\<close>

record 'u collaborators =
  MAIL_RECENT :: uint32
  maildir_create_tmp :: "world \<Rightarrow> string \<Rightarrow> nat \<Rightarrow> int \<times> string \<times> world"
  maildir_filename_set_flags :: "string \<Rightarrow> uint32 \<Rightarrow> string"
  o_stream_send_istream :: "ostream \<Rightarrow> istream \<Rightarrow> int \<times> ostream \<times> istream"
  mail_index_append :: "'u \<Rightarrow> uint32 \<times> 'u"
  mail_index_update_flags :: "'u \<Rightarrow> uint32 \<Rightarrow> uint32 \<Rightarrow> 'u"
  index_mail_next :: "'u \<Rightarrow> uint32 \<Rightarrow> int"
  maildir_uidlist_lock :: "'u \<Rightarrow> int \<times> 'u"
  maildir_sync_index :: "'u \<Rightarrow> int \<times> 'u"
  maildir_uidlist_get_next_uid :: "'u \<Rightarrow> uint32"
  mail_index_append_assign_uids :: "'u \<Rightarrow> uint32 \<Rightarrow> uint32 \<times> 'u"
  maildir_uidlist_sync_init :: "'u \<Rightarrow> 'u"
  maildir_uidlist_sync_next :: "'u \<Rightarrow> string \<Rightarrow> int \<times> 'u"
  maildir_uidlist_sync_deinit :: "'u \<Rightarrow> int \<times> 'u"

text \<open>
  The linked list of \<open>struct maildir_filename\<close> is a list, the head first. The field
  \<open>output\<close> of the context is called \<open>output_stream\<close> here.
\<close>

record maildir_filename =
  basename :: string
  dest :: "string option"

record maildir_save_context =
  tmpdir :: string
  newdir :: string
  curdir :: string
  files :: "maildir_filename list"
  input :: "istream option"
  output_stream :: "ostream option"
  fd :: int
  received_date :: int
  seq :: uint32
  save_crlf :: bool
  failed :: bool

definition maildir_file_move ::
  "world \<Rightarrow> maildir_save_context \<Rightarrow> string \<Rightarrow> string option \<Rightarrow> int \<times> world" where
  "maildir_file_move w ctx bname dst =
     (let tmp_path = tmpdir ctx @ ''/'' @ bname;
          new_path = (case dst of None \<Rightarrow> newdir ctx @ ''/'' @ bname
                      | Some d \<Rightarrow> curdir ctx @ ''/'' @ d);
          (lr, w1) = sys_link w tmp_path new_path;
          (ret, w2) = (case lr of
                         None \<Rightarrow> (0, w1)
                       | Some e \<Rightarrow>
                           (- 1, if ENOSPACE e
                                 then mail_storage_set_error w1 ''Not enough disk space''
                                 else mail_storage_set_critical w1 ''link(%s, %s) failed: %m''));
          (ur, w3) = sys_unlink w2 tmp_path;
          w4 = (if ur \<noteq> None \<and> ur \<noteq> Some ENOENT
                then mail_storage_set_critical w3 ''unlink(%s) failed: %m'' else w3)
      in (ret, w4))"

text \<open>\<open>getenv\<close> reads the process environment, a map from names to values.\<close>

definition maildir_transaction_save_init ::
  "(string \<rightharpoonup> string) \<Rightarrow> index_mailbox \<Rightarrow> maildir_save_context" where
  "maildir_transaction_save_init env ibox =
     \<lparr>tmpdir = path ibox @ ''/tmp'', newdir = path ibox @ ''/new'',
      curdir = path ibox @ ''/cur'', files = [], input = None, output_stream = None, fd = 0,
      received_date = 0, seq = 0,
      save_crlf = (env ''MAIL_SAVE_CRLF'' \<noteq> None), failed = False\<rparr>"

text \<open>\<open>strrchr(path, '/')\<close> followed by \<open>fname++\<close>: what follows the last slash.\<close>

definition after_last_slash :: "string \<Rightarrow> string" where
  "after_last_slash p = rev (takeWhile (\<lambda>c. c \<noteq> CHR ''/'') (rev p))"

text \<open>
  \<open>save_ctx\<close> is \<open>t->save_ctx\<close> (\<open>None\<close> for \<open>NULL\<close>); the context returned is also the new
  value of \<open>t->save_ctx\<close>.
\<close>

definition maildir_save_init ::
  "'u collaborators \<Rightarrow> (string \<rightharpoonup> string) \<Rightarrow> index_mailbox \<Rightarrow> maildir_save_context option \<Rightarrow>
   uint32 \<Rightarrow> int \<Rightarrow> istream \<Rightarrow> world \<times> 'u \<Rightarrow>
   failure + (maildir_save_context \<times> world \<times> 'u)" where
  "maildir_save_init api env ibox save_ctx flags recv_date inp st =
     (let (w, u) = st;
          ctx = (case save_ctx of None \<Rightarrow> maildir_transaction_save_init env ibox
                 | Some c \<Rightarrow> c);
          (new_fd, tmp_path, w1) = maildir_create_tmp api w (tmpdir ctx) (mail_create_mode ibox);
          ctx1 = ctx\<lparr>fd := new_fd\<rparr>
      in if new_fd = - 1 then Inr (ctx1\<lparr>failed := True\<rparr>, w1, u)
         else if CHR ''/'' \<notin> set tmp_path then Inl (Assert_failed ''fname != NULL'')
         else
           (let fname = after_last_slash tmp_path;
                ctx2 = ctx1\<lparr>received_date := recv_date, input := Some inp\<rparr>;
                ctx3 = ctx2\<lparr>output_stream := Some \<lparr>crlf = save_crlf ctx2, ostream_fd = new_fd,
                                               stream_errno = None\<rparr>\<rparr>;
                mail_flags = (flags AND NOT (MAIL_RECENT api))
                               OR (if keep_recent ibox then MAIL_RECENT api else 0);
                dest_fname = (if mail_flags = MAIL_RECENT api then None
                              else Some (maildir_filename_set_flags api fname mail_flags));
                mf = \<lparr>basename = fname, dest = dest_fname\<rparr>;
                ctx4 = ctx3\<lparr>files := mf # files ctx3\<rparr>;
                (new_seq, u1) = mail_index_append api u;
                ctx5 = ctx4\<lparr>seq := new_seq\<rparr>;
                u2 = mail_index_update_flags api u1 new_seq mail_flags
            in Inr (ctx5\<lparr>failed := False\<rparr>, w1, u2)))"

definition maildir_save_continue ::
  "'u collaborators \<Rightarrow> maildir_save_context \<Rightarrow> failure + (int \<times> maildir_save_context)" where
  "maildir_save_continue api ctx =
     (if failed ctx then Inr (- 1, ctx)
      else
        (case (output_stream ctx, input ctx) of
           (Some out, Some inp) \<Rightarrow>
             (let (r, out', inp') = o_stream_send_istream api out inp;
                  ctx1 = ctx\<lparr>output_stream := Some out', input := Some inp'\<rparr>
              in if r < 0 then Inr (- 1, ctx1\<lparr>failed := True\<rparr>) else Inr (0, ctx1))
         | _ \<Rightarrow> Inl Null_dereference))"

text \<open>\<open>want_mail_r\<close> says whether \<open>mail_r\<close> is not \<open>NULL\<close>.\<close>

definition maildir_save_finish ::
  "'u collaborators \<Rightarrow> bool \<Rightarrow> maildir_save_context \<Rightarrow> world \<times> 'u \<Rightarrow>
   failure + (int \<times> maildir_save_context \<times> world)" where
  "maildir_save_finish api want_mail_r ctx st =
     (let (w, u) = st in
      if failed ctx \<and> fd ctx = - 1 then Inr (- 1, ctx, w)
      else
        (case files ctx of
           [] \<Rightarrow> Inl Null_dereference
         | mf # rest \<Rightarrow>
             (let tmp_path = tmpdir ctx @ ''/'' @ basename mf;
                  (ctx1, w1) =
                    (if received_date ctx \<noteq> - 1 then
                       (let (r, w') = sys_utime w tmp_path (ioloop_time w) (received_date ctx)
                        in if r \<noteq> None
                           then (ctx\<lparr>failed := True\<rparr>,
                                 mail_storage_set_critical w' ''utime(%s) failed: %m'')
                           else (ctx, w'))
                     else (ctx, w))
              in case output_stream ctx1 of
                   None \<Rightarrow> Inl Null_dereference
                 | Some out \<Rightarrow>
                     (let output_errno = stream_errno out;
                          ctx2 = ctx1\<lparr>output_stream := None\<rparr>;
                          (fr, w2) = sys_fsync w1 (fd ctx2);
                          (ctx3, w3) =
                            (if fr \<noteq> None
                             then (ctx2\<lparr>failed := True\<rparr>,
                                   mail_storage_set_critical w2 ''fsync(%s) failed: %m'')
                             else (ctx2, w2));
                          (cr, w4) = sys_close w3 (fd ctx3);
                          (ctx4, w5) =
                            (if cr \<noteq> None
                             then (ctx3\<lparr>failed := True\<rparr>,
                                   mail_storage_set_critical w4 ''close(%s) failed: %m'')
                             else (ctx3, w4));
                          ctx5 = ctx4\<lparr>fd := - 1\<rparr>
                      in if failed ctx5 then
                           (let (ur, w6) = sys_unlink w5 tmp_path;
                                w7 = (if ur \<noteq> None \<and> ur \<noteq> Some ENOENT
                                      then mail_storage_set_critical w6 ''unlink(%s) failed: %m''
                                      else w6);
                                w8 = (case output_errno of
                                        None \<Rightarrow> w7
                                      | Some e \<Rightarrow>
                                          if ENOSPACE e
                                          then mail_storage_set_error w7 ''Not enough disk space''
                                          else mail_storage_set_critical w7
                                                 ''write(%s) failed: %m'')
                            in Inr (- 1, ctx5\<lparr>files := rest\<rparr>, w8))
                         else if want_mail_r then
                           (if seq ctx5 = 0 then Inl (Assert_failed ''ctx->seq != 0'')
                            else if index_mail_next api u (seq ctx5) < 0 then Inr (- 1, ctx5, w5)
                            else Inr (0, ctx5, w5))
                         else Inr (0, ctx5, w5)))))"

definition maildir_save_cancel ::
  "'u collaborators \<Rightarrow> maildir_save_context \<Rightarrow> world \<times> 'u \<Rightarrow>
   failure + (maildir_save_context \<times> world)" where
  "maildir_save_cancel api ctx st =
     (case maildir_save_finish api False (ctx\<lparr>failed := True\<rparr>) st of
        Inl e \<Rightarrow> Inl e
      | Inr (r, ctx', w') \<Rightarrow> Inr (ctx', w'))"

text \<open>The two \<open>for\<close> loops that unlink: the temporary files, and the files already moved.\<close>

fun unlink_tmp_files :: "world \<Rightarrow> string \<Rightarrow> maildir_filename list \<Rightarrow> world" where
  "unlink_tmp_files w dir [] = w"
| "unlink_tmp_files w dir (mf # rest) =
     unlink_tmp_files (snd (sys_unlink w (dir @ ''/'' @ basename mf))) dir rest"

definition maildir_transaction_save_rollback ::
  "world \<Rightarrow> maildir_save_context \<Rightarrow> failure + world" where
  "maildir_transaction_save_rollback w ctx =
     (if output_stream ctx \<noteq> None then Inl (Assert_failed ''ctx->output == NULL'')
      else Inr (unlink_tmp_files w (tmpdir ctx) (files ctx)))"

fun unlink_moved_files :: "world \<Rightarrow> maildir_save_context \<Rightarrow> maildir_filename list \<Rightarrow> world" where
  "unlink_moved_files w ctx [] = w"
| "unlink_moved_files w ctx (mf # rest) =
     unlink_moved_files
       (snd (sys_unlink w (case dest mf of None \<Rightarrow> newdir ctx @ ''/'' @ basename mf
                           | Some d \<Rightarrow> curdir ctx @ ''/'' @ d)))
       ctx rest"

text \<open>
  \<open>pos\<close> points into the list of \<open>ctx->files\<close>: it is given as the part of the list that
  starts at \<open>pos\<close> (\<open>[]\<close> for \<open>NULL\<close>), so the nodes before it are the first
  \<open>length (files ctx) - length pos\<close> ones.
\<close>

definition maildir_save_commit_abort ::
  "world \<Rightarrow> maildir_save_context \<Rightarrow> maildir_filename list \<Rightarrow> failure + world" where
  "maildir_save_commit_abort w ctx pos =
     (let w1 = unlink_moved_files w ctx (take (length (files ctx) - length pos) (files ctx))
      in maildir_transaction_save_rollback w1 (ctx\<lparr>files := pos\<rparr>))"

text \<open>
  The \<open>for\<close> loop of the commit over the list that starts at \<open>mf\<close>. The result is the
  position at which the loop failed (\<open>None\<close> when it ran to the end).
\<close>

fun commit_loop ::
  "'u collaborators \<Rightarrow> maildir_save_context \<Rightarrow> world \<Rightarrow> 'u \<Rightarrow> maildir_filename list \<Rightarrow>
   maildir_filename list option \<times> world \<times> 'u" where
  "commit_loop api ctx w u [] = (None, w, u)"
| "commit_loop api ctx w u (mf # rest) =
     (let fname = (case dest mf of Some d \<Rightarrow> d | None \<Rightarrow> basename mf);
          (mr, w1) = maildir_file_move w ctx (basename mf) (dest mf)
      in if mr < 0 then (Some (mf # rest), w1, u)
         else
           (let (sr, u1) = maildir_uidlist_sync_next api u fname
            in if sr < 0 then (Some (mf # rest), w1, u1)
               else commit_loop api ctx w1 u1 rest))"

text \<open>
  The result of the commit: the value returned, the locals \<open>first_uid\<close> and \<open>last_uid\<close>
  once they are set, and the state left behind.
\<close>

record 'u commit_result =
  ret :: int
  uids :: "(uint32 \<times> uint32) option"
  world_after :: world
  state_after :: 'u

definition maildir_transaction_save_commit ::
  "'u collaborators \<Rightarrow> maildir_save_context \<Rightarrow> world \<times> 'u \<Rightarrow> failure + 'u commit_result" where
  "maildir_transaction_save_commit api ctx st =
     (let (w, u) = st in
      if output_stream ctx \<noteq> None then Inl (Assert_failed ''ctx->output == NULL'')
      else
        (let (lock_ret, u1) = maildir_uidlist_lock api u in
         if lock_ret \<le> 0 then
           (case maildir_save_commit_abort w ctx (files ctx) of
              Inl e \<Rightarrow> Inl e
            | Inr w' \<Rightarrow> Inr \<lparr>ret = - 1, uids = None, world_after = w', state_after = u1\<rparr>)
         else
           (let (sync_ret, u2) = maildir_sync_index api u1 in
            if sync_ret < 0 then
              (case maildir_save_commit_abort w ctx (files ctx) of
                 Inl e \<Rightarrow> Inl e
               | Inr w' \<Rightarrow> Inr \<lparr>ret = - 1, uids = None, world_after = w', state_after = u2\<rparr>)
            else
              (let first_uid = maildir_uidlist_get_next_uid api u2;
                   (last_uid, u3) = mail_index_append_assign_uids api u2 first_uid;
                   u4 = maildir_uidlist_sync_init api u3;
                   (pos, w1, u5) = commit_loop api ctx w u4 (files ctx)
               in case pos of
                    Some mf \<Rightarrow>
                      (let (dr, u6) = maildir_uidlist_sync_deinit api u5 in
                       case maildir_save_commit_abort w1 ctx mf of
                         Inl e \<Rightarrow> Inl e
                       | Inr w' \<Rightarrow> Inr \<lparr>ret = - 1, uids = Some (first_uid, last_uid),
                                         world_after = w', state_after = u6\<rparr>)
                  | None \<Rightarrow>
                      (let (dr, u6) = maildir_uidlist_sync_deinit api u5 in
                       if dr < 0 then
                         (case maildir_save_commit_abort w1 ctx [] of
                            Inl e \<Rightarrow> Inl e
                          | Inr w' \<Rightarrow> Inr \<lparr>ret = - 1, uids = Some (first_uid, last_uid),
                                            world_after = w', state_after = u6\<rparr>)
                       else if maildir_uidlist_get_next_uid api u6 \<noteq> last_uid then
                         Inl (Assert_failed
                                ''maildir_uidlist_get_next_uid(ctx->ibox->uidlist) == last_uid'')
                       else Inr \<lparr>ret = lock_ret, uids = Some (first_uid, last_uid),
                                 world_after = w1, state_after = u6\<rparr>)))))"

section \<open>A sample environment for the save code\<close>

text \<open>
  Modelled from the spec: the UID list, the index transaction, the unique-filename
  generator and the stream copy are outside the sources. This instance follows what the
  specification says of them: \<open>maildir_create_tmp\<close> returns a newly created file with a
  unique basename under the directory given; the flag-encoded filename is the basename
  plus a suffix; the index transaction hands out in-memory sequence numbers for the
  messages appended; the UID list has a next free UID; the filenames appended to a sync
  session receive contiguous UIDs starting at the next free UID when the session is
  closed; the value stored to \<open>last_uid\<close> is the one the commit asserts to be the
  post-commit next UID. It is used to run the code on concrete inputs.
\<close>

record demo_state =
  demo_next_uid :: uint32
  demo_appended :: nat
  demo_session :: "string list"

fun is_open_tmp :: "call \<Rightarrow> bool" where
  "is_open_tmp (Open_tmp p) = True"
| "is_open_tmp c = False"

definition demo_create_tmp :: "world \<Rightarrow> string \<Rightarrow> nat \<Rightarrow> int \<times> string \<times> world" where
  "demo_create_tmp w dir mode =
     (let n = length (filter is_open_tmp (calls w));
          p = dir @ ''/'' @ ([''msg0'', ''msg1'', ''msg2'', ''msg3''] ! (n mod 4))
      in (3, p, w\<lparr>names := (names w)(p \<mapsto> n), calls := calls w @ [Open_tmp p]\<rparr>))"

definition demo_set_flags :: "string \<Rightarrow> uint32 \<Rightarrow> string" where
  "demo_set_flags fname flags =
     fname @ '':2,'' @ (if flags AND 16 \<noteq> 0 then ''D'' else '''')
       @ (if flags AND 2 \<noteq> 0 then ''F'' else '''')
       @ (if flags AND 1 \<noteq> 0 then ''R'' else '''')
       @ (if flags AND 8 \<noteq> 0 then ''S'' else '''')
       @ (if flags AND 4 \<noteq> 0 then ''T'' else '''')"

definition demo_api :: "demo_state collaborators" where
  "demo_api =
     \<lparr>MAIL_RECENT = 32,
      maildir_create_tmp = demo_create_tmp,
      maildir_filename_set_flags = demo_set_flags,
      o_stream_send_istream = (\<lambda>out inp. (int (length (unread inp)), out, inp\<lparr>unread := []\<rparr>)),
      mail_index_append = (\<lambda>u. (of_nat (demo_appended u + 1),
                                   u\<lparr>demo_appended := demo_appended u + 1\<rparr>)),
      mail_index_update_flags = (\<lambda>u s f. u),
      index_mail_next = (\<lambda>u s. 0),
      maildir_uidlist_lock = (\<lambda>u. (1, u)),
      maildir_sync_index = (\<lambda>u. (0, u)),
      maildir_uidlist_get_next_uid = demo_next_uid,
      mail_index_append_assign_uids =
        (\<lambda>u first_uid. (first_uid + of_nat (demo_appended u), u)),
      maildir_uidlist_sync_init = (\<lambda>u. u\<lparr>demo_session := []\<rparr>),
      maildir_uidlist_sync_next = (\<lambda>u fname. (1, u\<lparr>demo_session := demo_session u @ [fname]\<rparr>)),
      maildir_uidlist_sync_deinit =
        (\<lambda>u. (0, u\<lparr>demo_next_uid := demo_next_uid u + of_nat (length (demo_session u))\<rparr>))\<rparr>"

definition demo_world :: world where
  "demo_world = \<lparr>names = Map.empty, mtime = Map.empty, calls = [], fault = (\<lambda>c. None),
                  storage_message = None, ioloop_time = 1000\<rparr>"

definition demo_uidlist :: demo_state where
  "demo_uidlist = \<lparr>demo_next_uid = 1, demo_appended = 0, demo_session = []\<rparr>"

definition demo_ibox :: index_mailbox where
  "demo_ibox = \<lparr>path = ''/mbox'', keep_recent = True, mail_create_mode = 384\<rparr>"

section \<open>Notions used to state the properties of the save code\<close>

text \<open>The destination of a staged file, and the two system calls that move it there.\<close>

definition dest_path :: "maildir_save_context \<Rightarrow> maildir_filename \<Rightarrow> string" where
  "dest_path ctx mf =
     (case dest mf of None \<Rightarrow> newdir ctx @ ''/'' @ basename mf
      | Some d \<Rightarrow> curdir ctx @ ''/'' @ d)"

definition move_calls :: "maildir_save_context \<Rightarrow> maildir_filename \<Rightarrow> call list" where
  "move_calls ctx mf =
     [Link (tmpdir ctx @ ''/'' @ basename mf) (dest_path ctx mf),
      Unlink (tmpdir ctx @ ''/'' @ basename mf)]"

text \<open>
  A caller that saves one message: \<open>save_init\<close>, one \<open>save_continue\<close> that copies the
  input, \<open>save_finish\<close> without a mail view.
\<close>

definition save_message ::
  "'u collaborators \<Rightarrow> (string \<rightharpoonup> string) \<Rightarrow> index_mailbox \<Rightarrow> maildir_save_context option \<Rightarrow>
   uint32 \<Rightarrow> int \<Rightarrow> istream \<Rightarrow> world \<times> 'u \<Rightarrow>
   failure + (int \<times> maildir_save_context \<times> world \<times> 'u)" where
  "save_message api env ibox save_ctx flags recv_date inp st =
     (case maildir_save_init api env ibox save_ctx flags recv_date inp st of
        Inl e \<Rightarrow> Inl e
      | Inr (ctx, w1, u1) \<Rightarrow>
          (case maildir_save_continue api ctx of
             Inl e \<Rightarrow> Inl e
           | Inr (r, ctx1) \<Rightarrow>
               (case maildir_save_finish api False ctx1 (w1, u1) of
                  Inl e \<Rightarrow> Inl e
                | Inr (r2, ctx2, w2) \<Rightarrow> Inr (r2, ctx2, w2, u1))))"

text \<open>
  The state of the collaborators at the point where the commit reads the next UID: after
  the UID list has been locked and the index has been synced.
\<close>

definition state_under_lock :: "'u collaborators \<Rightarrow> 'u \<Rightarrow> 'u" where
  "state_under_lock api u = snd (maildir_sync_index api (snd (maildir_uidlist_lock api u)))"

section \<open>Authentication connections (auth-connection.c)\<close>

text \<open>
  Modelled from the spec: the wire structures are declared outside the sources. A reply
  carries an id, a result (one of \<open>CONTINUE\<close>, \<open>OK\<close>, \<open>FAIL\<close>) and its data; the
  handshake of the worker carries its pid and the bitset of its mechanisms; a request
  frame is \<open>NEW\<close> (protocol, mechanism, id) or \<open>CONTINUE\<close> (id, data); the handshake of
  the login process carries its uid.
\<close>

datatype auth_login_result =
  AUTH_LOGIN_RESULT_CONTINUE | AUTH_LOGIN_RESULT_OK | AUTH_LOGIN_RESULT_FAIL

record auth_login_reply =
  reply_id :: uint32
  reply_result :: auth_login_result
  reply_data :: string

record auth_login_handshake_output =
  hs_pid :: uint32
  hs_auth_mechanisms :: uint32

datatype frame =
  Handshake_input uint32
  | Request_new nat uint32 uint32
  | Request_continue uint32 string

text \<open>
  A request and a connection are heap objects; a pointer to one is its address, a natural
  number. The fields of \<open>struct auth_request\<close> are \<open>mech\<close>, \<open>conn\<close>, \<open>id\<close>, \<open>callback\<close>
  and \<open>context\<close>; the callback and its context are opaque values here.
\<close>

record auth_request =
  mech :: uint32
  conn :: nat
  id_req :: uint32
  callback :: nat
  context_req :: nat

text \<open>
  The fields of \<open>struct auth_connection\<close>, with the prefix \<open>conn_\<close>. \<open>conn_requests\<close> is
  the hash table from request id to request pointer. \<open>conn_out_space\<close> is the room left
  in the output stream.
\<close>

record auth_connection =
  conn_refcount :: int
  conn_path :: string
  conn_fd :: int
  conn_out_space :: nat
  conn_requests :: "(uint32 \<times> nat) list"
  conn_pid :: uint32
  conn_available_auth_mechs :: uint32
  conn_handshake_received :: bool
  conn_reply_received :: bool

text \<open>
  Modelled from the spec: the hash table and the output stream are outside the sources.
  \<open>hash_insert\<close> stores the value under the key, in place of a value already stored
  under it; \<open>o_stream_have_space\<close> tells whether the stream has headroom for the
  number of bytes given.
\<close>

definition hash_lookup :: "(uint32 \<times> nat) list \<Rightarrow> uint32 \<Rightarrow> nat option" where
  "hash_lookup table key = map_of table key"

definition hash_remove :: "(uint32 \<times> nat) list \<Rightarrow> uint32 \<Rightarrow> (uint32 \<times> nat) list" where
  "hash_remove table key = filter (\<lambda>kv. fst kv \<noteq> key) table"

definition hash_insert :: "(uint32 \<times> nat) list \<Rightarrow> uint32 \<Rightarrow> nat \<Rightarrow> (uint32 \<times> nat) list" where
  "hash_insert table key v = (key, v) # hash_remove table key"

definition o_stream_have_space :: "auth_connection \<Rightarrow> nat \<Rightarrow> int" where
  "o_stream_have_space c sz = (if sz \<le> conn_out_space c then 1 else 0)"

text \<open>
  The static variables of the file, the heap, and what the module does to the outside:
  \<open>auth_connections\<close> is the linked list, head first, each node with its address;
  \<open>detached\<close> are the connections that were taken off the list and are still referenced;
  \<open>request_heap\<close> are the requests allocated and not yet freed; \<open>callback_log\<close> are the
  calls of request callbacks (request pointer and reply, \<open>None\<close> for the null reply);
  \<open>sent\<close> are the frames written (descriptor and frame); \<open>next_addr\<close> is the next
  address the allocator gives out.
\<close>

record auth_state =
  available_auth_mechs :: uint32
  auth_reconnect :: bool
  request_id_counter :: uint32
  auth_connections :: "(nat \<times> auth_connection) list"
  auth_waiting_handshake_count :: uint32
  detached :: "(nat \<times> auth_connection) list"
  request_heap :: "nat \<rightharpoonup> auth_request"
  callback_log :: "(nat \<times> auth_login_reply option) list"
  sent :: "(int \<times> frame) list"
  next_addr :: nat

text \<open>
  What the module gets from outside: the entries of the socket directory with the
  result of \<open>stat\<close> (\<open>None\<close> when \<open>opendir\<close> fails), the descriptor that
  \<open>net_connect_unix\<close> returns, the descriptors on which \<open>o_stream_send\<close> fails, the room
  in a new output stream, \<open>login_process_uid\<close> and
  \<open>sizeof(struct auth_login_request_new)\<close>.
\<close>

record auth_env =
  dir_entries :: "(string \<times> bool) list option"
  net_connect_unix :: "string \<Rightarrow> int"
  send_fails :: "int \<Rightarrow> bool"
  MAX_OUTBUF_SIZE :: nat
  login_process_uid :: uint32
  request_new_size :: nat

definition lookup_conn :: "auth_state \<Rightarrow> nat \<Rightarrow> auth_connection option" where
  "lookup_conn s c =
     (case map_of (auth_connections s) c of
        Some x \<Rightarrow> Some x
      | None \<Rightarrow> map_of (detached s) c)"

fun store_in :: "(nat \<times> auth_connection) list \<Rightarrow> nat \<Rightarrow> auth_connection \<Rightarrow>
                 (nat \<times> auth_connection) list" where
  "store_in [] c x = []"
| "store_in ((c', x') # rest) c x =
     (if c' = c then (c, x) # rest else (c', x') # store_in rest c x)"

text \<open>A write through the pointer \<open>c\<close>.\<close>

definition store_conn :: "auth_state \<Rightarrow> nat \<Rightarrow> auth_connection \<Rightarrow> auth_state" where
  "store_conn s c x =
     (if map_of (auth_connections s) c \<noteq> None
      then s\<lparr>auth_connections := store_in (auth_connections s) c x\<rparr>
      else s\<lparr>detached := store_in (detached s) c x\<rparr>)"

fun auth_connection_find :: "(nat \<times> auth_connection) list \<Rightarrow> string \<Rightarrow> nat option" where
  "auth_connection_find [] p = None"
| "auth_connection_find ((c, x) # rest) p =
     (if conn_path x = p then Some c else auth_connection_find rest p)"

text \<open>\<open>hash_foreach(conn->requests, request_hash_destroy, NULL)\<close>: every request is freed.\<close>

definition free_requests :: "(nat \<rightharpoonup> auth_request) \<Rightarrow> (uint32 \<times> nat) list \<Rightarrow> (nat \<rightharpoonup> auth_request)" where
  "free_requests heap table = (\<lambda>a. if a \<in> snd ` set table then None else heap a)"

definition auth_connection_unref :: "auth_state \<Rightarrow> nat \<Rightarrow> failure + auth_state" where
  "auth_connection_unref s c =
     (case lookup_conn s c of
        None \<Rightarrow> Inl Null_dereference
      | Some x \<Rightarrow>
          if conn_refcount x - 1 > 0
          then Inr (store_conn s c (x\<lparr>conn_refcount := conn_refcount x - 1\<rparr>))
          else Inr (s\<lparr>request_heap := free_requests (request_heap s) (conn_requests x),
                      auth_connections := filter (\<lambda>n. fst n \<noteq> c) (auth_connections s),
                      detached := filter (\<lambda>n. fst n \<noteq> c) (detached s)\<rparr>))"

text \<open>The loop of \<open>auth_connection_destroy\<close> that takes the node off the list.\<close>

fun unlink_conn :: "(nat \<times> auth_connection) list \<Rightarrow> nat \<Rightarrow> (nat \<times> auth_connection) list" where
  "unlink_conn [] c = []"
| "unlink_conn ((c', x') # rest) c =
     (if c' = c then rest else (c', x') # unlink_conn rest c)"

text \<open>
  \<open>hash_foreach(conn->requests, request_hash_remove, NULL)\<close>: the callback of every
  request is called with the null reply.
\<close>

definition auth_connection_destroy :: "auth_state \<Rightarrow> nat \<Rightarrow> failure + auth_state" where
  "auth_connection_destroy s c =
     (case lookup_conn s c of
        None \<Rightarrow> Inl Null_dereference
      | Some x \<Rightarrow>
          if conn_fd x = - 1 then Inr s
          else
            (let in_list = (map_of (auth_connections s) c \<noteq> None);
                 s1 = (if in_list
                       then s\<lparr>auth_connections := unlink_conn (auth_connections s) c,
                              detached := (c, x) # detached s\<rparr>
                       else s);
                 s2 = (if \<not> conn_handshake_received x
                       then s1\<lparr>auth_waiting_handshake_count :=
                                  auth_waiting_handshake_count s1 - 1\<rparr>
                       else s1);
                 s3 = store_conn s2 c (x\<lparr>conn_fd := - 1\<rparr>);
                 s4 = s3\<lparr>callback_log :=
                            callback_log s3 @ map (\<lambda>kv. (snd kv, None)) (conn_requests x)\<rparr>
             in auth_connection_unref s4 c))"

definition auth_connection_new ::
  "auth_env \<Rightarrow> auth_state \<Rightarrow> string \<Rightarrow> failure + (nat option \<times> auth_state)" where
  "auth_connection_new env s p =
     (let new_fd = net_connect_unix env p in
      if new_fd = - 1 then Inr (None, s\<lparr>auth_reconnect := True\<rparr>)
      else
        (let c = next_addr s;
             x = \<lparr>conn_refcount = 1, conn_path = p, conn_fd = new_fd,
                  conn_out_space = MAX_OUTBUF_SIZE env, conn_requests = [], conn_pid = 0,
                  conn_available_auth_mechs = 0, conn_handshake_received = False,
                  conn_reply_received = False\<rparr>;
             s1 = s\<lparr>next_addr := c + 1, auth_connections := (c, x) # auth_connections s,
                    auth_waiting_handshake_count := auth_waiting_handshake_count s + 1\<rparr>
         in if send_fails env new_fd then
              (case auth_connection_destroy s1 c of
                 Inl e \<Rightarrow> Inl e
               | Inr s2 \<Rightarrow> Inr (None, s2))
            else Inr (Some c, s1\<lparr>sent := sent s1 @ [(new_fd, Handshake_input
                                                            (login_process_uid env))]\<rparr>)))"

text \<open>
  The loop of \<open>auth_connection_get\<close>: the node of the connection found, or \<open>None\<close>
  with the value of \<open>found\<close>.
\<close>

fun auth_connection_get_loop ::
  "(nat \<times> auth_connection) list \<Rightarrow> uint32 \<Rightarrow> nat \<Rightarrow> bool \<Rightarrow>
   (nat \<times> auth_connection) option \<times> bool" where
  "auth_connection_get_loop [] m sz found = (None, found)"
| "auth_connection_get_loop ((c, x) # rest) m sz found =
     (if conn_available_auth_mechs x AND m \<noteq> 0 then
        (if o_stream_have_space x sz > 0 then (Some (c, x), found)
         else auth_connection_get_loop rest m sz True)
      else auth_connection_get_loop rest m sz found)"

text \<open>
  The result is the connection (its address and the object), the value stored to
  \<open>*error\<close> if any, and the state.
\<close>

definition auth_connection_get ::
  "auth_state \<Rightarrow> uint32 \<Rightarrow> nat \<Rightarrow>
   (nat \<times> auth_connection) option \<times> string option \<times> auth_state" where
  "auth_connection_get s m sz =
     (case auth_connection_get_loop (auth_connections s) m sz False of
        (Some n, found) \<Rightarrow> (Some n, None, s)
      | (None, found) \<Rightarrow>
          if \<not> found then
            (if available_auth_mechs s AND m = 0
             then (None, Some ''Unsupported authentication mechanism'', s)
             else (None, Some ''Authentication server isn't connected, try again later..'',
                   s\<lparr>auth_reconnect := True\<rparr>))
          else (None, Some ''Authentication servers are busy, wait..'', s))"

definition update_available_auth_mechs :: "auth_state \<Rightarrow> auth_state" where
  "update_available_auth_mechs s =
     s\<lparr>available_auth_mechs :=
         foldl (\<lambda>acc n. acc OR conn_available_auth_mechs (snd n)) 0 (auth_connections s)\<rparr>"

definition auth_handle_handshake ::
  "auth_state \<Rightarrow> nat \<Rightarrow> auth_login_handshake_output \<Rightarrow> failure + auth_state" where
  "auth_handle_handshake s c handshake =
     (if hs_pid handshake = 0 then auth_connection_destroy s c
      else
        (case lookup_conn s c of
           None \<Rightarrow> Inl Null_dereference
         | Some x \<Rightarrow>
             (let s1 = store_conn s c
                         (x\<lparr>conn_pid := hs_pid handshake,
                            conn_available_auth_mechs := hs_auth_mechanisms handshake,
                            conn_handshake_received := True\<rparr>);
                  s2 = s1\<lparr>auth_waiting_handshake_count := auth_waiting_handshake_count s1 - 1\<rparr>
              in Inr (update_available_auth_mechs s2))))"

definition auth_handle_reply ::
  "auth_state \<Rightarrow> nat \<Rightarrow> auth_login_reply \<Rightarrow> failure + auth_state" where
  "auth_handle_reply s c reply =
     (case lookup_conn s c of
        None \<Rightarrow> Inl Null_dereference
      | Some x \<Rightarrow>
          (case hash_lookup (conn_requests x) (reply_id reply) of
             None \<Rightarrow> Inr s
           | Some request \<Rightarrow>
               (case request_heap s request of
                  None \<Rightarrow> Inl Null_dereference
                | Some rq \<Rightarrow>
                    (let s1 = s\<lparr>callback_log := callback_log s @ [(request, Some reply)]\<rparr>
                     in if reply_result reply \<noteq> AUTH_LOGIN_RESULT_CONTINUE then
                          Inr ((store_conn s1 c
                                 (x\<lparr>conn_requests := hash_remove (conn_requests x) (id_req rq)\<rparr>))
                               \<lparr>request_heap := (request_heap s1)(request := None)\<rparr>)
                        else Inr s1))))"

text \<open>One turn of the \<open>readdir\<close> loop of \<open>auth_connect_missing\<close>.\<close>

definition connect_entry ::
  "auth_env \<Rightarrow> auth_state \<Rightarrow> string \<times> bool \<Rightarrow> failure + auth_state" where
  "connect_entry env s ent =
     (let (d_name, is_sock) = ent in
      if d_name \<noteq> [] \<and> hd d_name = CHR ''.'' then Inr s
      else if auth_connection_find (auth_connections s) d_name \<noteq> None then Inr s
      else if is_sock then
        (case auth_connection_new env s d_name of
           Inl e \<Rightarrow> Inl e
         | Inr (Some c, s1) \<Rightarrow> Inr (s1\<lparr>auth_reconnect := False\<rparr>)
         | Inr (None, s1) \<Rightarrow> Inr s1)
      else Inr s)"

fun connect_entries ::
  "auth_env \<Rightarrow> auth_state \<Rightarrow> (string \<times> bool) list \<Rightarrow> failure + auth_state" where
  "connect_entries env s [] = Inr s"
| "connect_entries env s (ent # rest) =
     (case connect_entry env s ent of
        Inl e \<Rightarrow> Inl e
      | Inr s1 \<Rightarrow> connect_entries env s1 rest)"

definition auth_connect_missing :: "auth_env \<Rightarrow> auth_state \<Rightarrow> failure + auth_state" where
  "auth_connect_missing env s =
     (let s1 = s\<lparr>auth_reconnect := True\<rparr> in
      case dir_entries env of
        None \<Rightarrow> Inr s1
      | Some ents \<Rightarrow> connect_entries env s1 ents)"

text \<open>
  The result is the value returned (\<open>TRUE\<close> or \<open>FALSE\<close>), the value stored to \<open>*error\<close>,
  the request created, and the state.
\<close>

definition auth_init_request ::
  "auth_env \<Rightarrow> auth_state \<Rightarrow> uint32 \<Rightarrow> nat \<Rightarrow> nat \<Rightarrow> nat \<Rightarrow>
   failure + (bool \<times> string option \<times> nat option \<times> auth_state)" where
  "auth_init_request env s m protocol cb ctx =
     (case (if auth_reconnect s then auth_connect_missing env s else Inr s) of
        Inl e \<Rightarrow> Inl e
      | Inr s1 \<Rightarrow>
          (case auth_connection_get s1 m (request_new_size env) of
             (None, error, s2) \<Rightarrow> Inr (False, error, None, s2)
           | (Some (c, x), error, s2) \<Rightarrow>
               (let request = next_addr s2;
                    counter1 = request_id_counter s2 + 1;
                    counter2 = (if counter1 = 0 then counter1 + 1 else counter1);
                    rq = \<lparr>mech = m, conn = c, id_req = counter2, callback = cb,
                          context_req = ctx\<rparr>;
                    s3 = s2\<lparr>next_addr := request + 1, request_id_counter := counter2,
                            request_heap := (request_heap s2)(request \<mapsto> rq)\<rparr>;
                    s4 = store_conn s3 c
                           (x\<lparr>conn_requests := hash_insert (conn_requests x) counter2 request\<rparr>)
                in if send_fails env (conn_fd x) then
                     (case auth_connection_destroy s4 c of
                        Inl e \<Rightarrow> Inl e
                      | Inr s5 \<Rightarrow> Inr (True, error, Some request, s5))
                   else Inr (True, error, Some request,
                             s4\<lparr>sent := sent s4 @ [(conn_fd x,
                                                     Request_new protocol m counter2)]\<rparr>))))"

definition auth_abort_request :: "auth_state \<Rightarrow> nat \<Rightarrow> failure + auth_state" where
  "auth_abort_request s request =
     (case request_heap s request of
        None \<Rightarrow> Inl Null_dereference
      | Some rq \<Rightarrow>
          (case lookup_conn s (conn rq) of
             None \<Rightarrow> Inl Null_dereference
           | Some x \<Rightarrow>
               (let s1 = (if hash_lookup (conn_requests x) (id_req rq) \<noteq> None
                          then store_conn s (conn rq)
                                 (x\<lparr>conn_requests := hash_remove (conn_requests x) (id_req rq)\<rparr>)
                          else s)
                in Inr (s1\<lparr>request_heap := (request_heap s1)(request := None)\<rparr>))))"

definition auth_is_connected :: "auth_state \<Rightarrow> bool" where
  "auth_is_connected s = (\<not> auth_reconnect s \<and> auth_waiting_handshake_count s = 0)"



text \<open>The state in which \<open>auth_init_request\<close> picks the connection: after the rescan, if one is due.\<close>

definition after_rescan :: "auth_env \<Rightarrow> auth_state \<Rightarrow> failure + auth_state" where
  "after_rescan env s = (if auth_reconnect s then auth_connect_missing env s else Inr s)"

text \<open>
  \<open>auth_connection_init\<close> zeroes the static variables and scans the directory; the timer it
  installs calls \<open>auth_connect_missing\<close> again while \<open>auth_reconnect\<close> is set.
\<close>

definition auth_connection_init :: "auth_env \<Rightarrow> auth_state \<Rightarrow> failure + auth_state" where
  "auth_connection_init env s =
     auth_connect_missing env
       (s\<lparr>auth_connections := [], request_id_counter := 0, auth_reconnect := False,
          auth_waiting_handshake_count := 0\<rparr>)"

text \<open>
  Sequences of the three operations on requests: a new request, a reply arriving on a
  connection, and an abort by the caller.
\<close>

datatype auth_op =
  Init_request uint32 nat nat nat
  | Reply nat auth_login_reply
  | Abort_request nat

fun is_init_request :: "auth_op \<Rightarrow> bool" where
  "is_init_request (Init_request m protocol cb ctx) = True"
| "is_init_request (Reply c reply) = False"
| "is_init_request (Abort_request request) = False"

fun auth_step :: "auth_env \<Rightarrow> auth_state \<Rightarrow> auth_op \<Rightarrow> failure + auth_state" where
  "auth_step env s (Init_request m protocol cb ctx) =
     (case auth_init_request env s m protocol cb ctx of
        Inl e \<Rightarrow> Inl e
      | Inr (ok, error, request, s') \<Rightarrow> Inr s')"
| "auth_step env s (Reply c reply) = auth_handle_reply s c reply"
| "auth_step env s (Abort_request request) = auth_abort_request s request"

fun auth_run :: "auth_env \<Rightarrow> auth_state \<Rightarrow> auth_op list \<Rightarrow> failure + auth_state" where
  "auth_run env s [] = Inr s"
| "auth_run env s (op # ops) =
     (case auth_step env s op of
        Inl e \<Rightarrow> Inl e
      | Inr s' \<Rightarrow> auth_run env s' ops)"

text \<open>
  The outstanding requests are those on the heap. \<open>ids_in_use_ok\<close>: none of them has id
  0, none has an id above the counter, and no two of them have the same id.
\<close>

definition ids_in_use_ok :: "auth_state \<Rightarrow> bool" where
  "ids_in_use_ok s =
     ((\<forall>a rq. request_heap s a = Some rq \<longrightarrow>
          id_req rq \<noteq> 0 \<and> id_req rq \<le> request_id_counter s)
      \<and> (\<forall>a b rq rq'. request_heap s a = Some rq \<and> request_heap s b = Some rq' \<and> a \<noteq> b \<longrightarrow>
             id_req rq \<noteq> id_req rq'))"

text \<open>\<open>heap_shrinks h' h\<close>: every request on \<open>h'\<close> is on \<open>h\<close>, unchanged.\<close>

definition heap_shrinks :: "(nat \<rightharpoonup> auth_request) \<Rightarrow> (nat \<rightharpoonup> auth_request) \<Rightarrow> bool" where
  "heap_shrinks h' h = (\<forall>a rq. h' a = Some rq \<longrightarrow> h a = Some rq)"

definition example_index :: mail_index where
  "example_index =
     \<lparr>lock_type = MAIL_LOCK_EXCLUSIVE, messages_count = 4,
      records = [\<lparr>uid = 2, msg_flags = 0\<rparr>, \<lparr>uid = 5, msg_flags = 1\<rparr>,
                 \<lparr>uid = 7, msg_flags = 0\<rparr>, \<lparr>uid = 9, msg_flags = 8\<rparr>],
      flag_changes = []\<rparr>"

definition empty_index :: mail_index where
  "empty_index = \<lparr>lock_type = MAIL_LOCK_SHARED, messages_count = 0, records = [],
                   flag_changes = []\<rparr>"

text \<open>
  The sample mailbox after one message with empty flags has been saved (\<open>demo_ctx1\<close>,
  \<open>demo_world1\<close>, \<open>demo_uidlist1\<close>) and after a second one has been saved in the same
  transaction (\<open>demo_ctx2\<close>, \<open>demo_world2\<close>, \<open>demo_uidlist2\<close>).
\<close>

definition demo_ctx1 :: maildir_save_context where
  "demo_ctx1 =
     \<lparr>tmpdir = ''/mbox/tmp'', newdir = ''/mbox/new'', curdir = ''/mbox/cur'',
      files = [\<lparr>basename = ''msg0'', dest = None\<rparr>],
      input = Some \<lparr>unread = ''''\<rparr>, output_stream = None, fd = - 1,
      received_date = 500, seq = 1, save_crlf = False, failed = False\<rparr>"

definition demo_world1 :: world where
  "demo_world1 =
     \<lparr>names = [''/mbox/tmp/msg0'' \<mapsto> 0], mtime = [0 \<mapsto> 500],
      calls = [Open_tmp ''/mbox/tmp/msg0'', Utime ''/mbox/tmp/msg0'' 1000 500, Fsync 3, Close 3],
      fault = (\<lambda>c. None), storage_message = None, ioloop_time = 1000\<rparr>"

definition demo_uidlist1 :: demo_state where
  "demo_uidlist1 = \<lparr>demo_next_uid = 1, demo_appended = 1, demo_session = []\<rparr>"

definition demo_ctx2 :: maildir_save_context where
  "demo_ctx2 =
     \<lparr>tmpdir = ''/mbox/tmp'', newdir = ''/mbox/new'', curdir = ''/mbox/cur'',
      files = [\<lparr>basename = ''msg1'', dest = None\<rparr>, \<lparr>basename = ''msg0'', dest = None\<rparr>],
      input = Some \<lparr>unread = ''''\<rparr>, output_stream = None, fd = - 1,
      received_date = 600, seq = 2, save_crlf = False, failed = False\<rparr>"

definition demo_world2 :: world where
  "demo_world2 =
     \<lparr>names = [''/mbox/tmp/msg0'' \<mapsto> 0, ''/mbox/tmp/msg1'' \<mapsto> 1],
      mtime = [0 \<mapsto> 500, 1 \<mapsto> 600],
      calls = [Open_tmp ''/mbox/tmp/msg0'', Utime ''/mbox/tmp/msg0'' 1000 500, Fsync 3, Close 3,
               Open_tmp ''/mbox/tmp/msg1'', Utime ''/mbox/tmp/msg1'' 1000 600, Fsync 3, Close 3],
      fault = (\<lambda>c. None), storage_message = None, ioloop_time = 1000\<rparr>"

definition demo_uidlist2 :: demo_state where
  "demo_uidlist2 = \<lparr>demo_next_uid = 1, demo_appended = 2, demo_session = []\<rparr>"

text \<open>
  The same two saves, stopped right after \<open>maildir_save_init\<close>: the temporary file is
  open and nothing has been copied yet.
\<close>

definition demo_ctx_open1 :: maildir_save_context where
  "demo_ctx_open1 =
     \<lparr>tmpdir = ''/mbox/tmp'', newdir = ''/mbox/new'', curdir = ''/mbox/cur'',
      files = [\<lparr>basename = ''msg0'', dest = None\<rparr>],
      input = Some \<lparr>unread = ''Hello''\<rparr>,
      output_stream = Some \<lparr>crlf = False, ostream_fd = 3, stream_errno = None\<rparr>, fd = 3,
      received_date = 500, seq = 1, save_crlf = False, failed = False\<rparr>"

definition demo_world_open1 :: world where
  "demo_world_open1 =
     \<lparr>names = [''/mbox/tmp/msg0'' \<mapsto> 0], mtime = Map.empty,
      calls = [Open_tmp ''/mbox/tmp/msg0''],
      fault = (\<lambda>c. None), storage_message = None, ioloop_time = 1000\<rparr>"

definition demo_ctx_open2 :: maildir_save_context where
  "demo_ctx_open2 =
     \<lparr>tmpdir = ''/mbox/tmp'', newdir = ''/mbox/new'', curdir = ''/mbox/cur'',
      files = [\<lparr>basename = ''msg1'', dest = None\<rparr>, \<lparr>basename = ''msg0'', dest = None\<rparr>],
      input = Some \<lparr>unread = ''World''\<rparr>,
      output_stream = Some \<lparr>crlf = False, ostream_fd = 3, stream_errno = None\<rparr>, fd = 3,
      received_date = 600, seq = 2, save_crlf = False, failed = False\<rparr>"

definition demo_world_open2 :: world where
  "demo_world_open2 =
     \<lparr>names = [''/mbox/tmp/msg0'' \<mapsto> 0, ''/mbox/tmp/msg1'' \<mapsto> 1], mtime = [0 \<mapsto> 500],
      calls = [Open_tmp ''/mbox/tmp/msg0'', Utime ''/mbox/tmp/msg0'' 1000 500, Fsync 3, Close 3,
               Open_tmp ''/mbox/tmp/msg1''],
      fault = (\<lambda>c. None), storage_message = None, ioloop_time = 1000\<rparr>"

text \<open>The results of committing the transaction after one save and after two.\<close>

definition demo_commit1 :: "demo_state commit_result" where
  "demo_commit1 =
     \<lparr>ret = 1, uids = Some (1, 2),
      world_after = demo_world1
        \<lparr>names := [''/mbox/new/msg0'' \<mapsto> 0],
         calls := calls demo_world1 @ [Link ''/mbox/tmp/msg0'' ''/mbox/new/msg0'',
                                       Unlink ''/mbox/tmp/msg0'']\<rparr>,
      state_after = \<lparr>demo_next_uid = 2, demo_appended = 1, demo_session = [''msg0'']\<rparr>\<rparr>"

definition demo_commit2 :: "demo_state commit_result" where
  "demo_commit2 =
     \<lparr>ret = 1, uids = Some (1, 3),
      world_after = demo_world2
        \<lparr>names := [''/mbox/new/msg1'' \<mapsto> 1, ''/mbox/new/msg0'' \<mapsto> 0],
         calls := calls demo_world2 @ [Link ''/mbox/tmp/msg1'' ''/mbox/new/msg1'',
                                       Unlink ''/mbox/tmp/msg1'',
                                       Link ''/mbox/tmp/msg0'' ''/mbox/new/msg0'',
                                       Unlink ''/mbox/tmp/msg0'']\<rparr>,
      state_after = \<lparr>demo_next_uid = 3, demo_appended = 2,
                      demo_session = [''msg1'', ''msg0'']\<rparr>\<rparr>"

text \<open>
  A disk that fills up while the first message is copied: the stream copy writes three
  bytes and fails with \<open>ENOSPC\<close>. \<open>demo_failed_ctx\<close> is the context that
  \<open>maildir_save_continue\<close> leaves behind, \<open>demo_cleaned_ctx\<close> and \<open>demo_cleaned_world\<close>
  are what \<open>maildir_save_finish\<close> makes of it.
\<close>

definition full_disk_api :: "demo_state collaborators" where
  "full_disk_api =
     demo_api\<lparr>o_stream_send_istream :=
       (\<lambda>out inp. (- 1, out\<lparr>stream_errno := Some ENOSPC\<rparr>,
                    inp\<lparr>unread := drop 3 (unread inp)\<rparr>))\<rparr>"

definition demo_failed_ctx :: maildir_save_context where
  "demo_failed_ctx =
     \<lparr>tmpdir = ''/mbox/tmp'', newdir = ''/mbox/new'', curdir = ''/mbox/cur'',
      files = [\<lparr>basename = ''msg0'', dest = None\<rparr>],
      input = Some \<lparr>unread = ''lo''\<rparr>,
      output_stream = Some \<lparr>crlf = False, ostream_fd = 3, stream_errno = Some ENOSPC\<rparr>, fd = 3,
      received_date = 500, seq = 1, save_crlf = False, failed = True\<rparr>"

definition demo_cleaned_ctx :: maildir_save_context where
  "demo_cleaned_ctx =
     \<lparr>tmpdir = ''/mbox/tmp'', newdir = ''/mbox/new'', curdir = ''/mbox/cur'',
      files = [],
      input = Some \<lparr>unread = ''lo''\<rparr>,
      output_stream = None, fd = - 1,
      received_date = 500, seq = 1, save_crlf = False, failed = True\<rparr>"

definition demo_cleaned_world :: world where
  "demo_cleaned_world =
     \<lparr>names = Map.empty, mtime = [0 \<mapsto> 500],
      calls = [Open_tmp ''/mbox/tmp/msg0'', Utime ''/mbox/tmp/msg0'' 1000 500, Fsync 3, Close 3,
               Unlink ''/mbox/tmp/msg0''],
      fault = (\<lambda>c. None),
      storage_message = Some (Storage_error ''Not enough disk space''), ioloop_time = 1000\<rparr>"

text \<open>
  A mailbox that does not keep the recent flag, for a save whose flags are \<open>RECENT\<close>
  only.
\<close>

definition plain_ibox :: index_mailbox where
  "plain_ibox = \<lparr>path = ''/mbox'', keep_recent = False, mail_create_mode = 384\<rparr>"

text \<open>
  A login process with one worker socket \<open>auth1\<close>: \<open>auth_start\<close> is the state before
  \<open>auth_connection_init\<close>, \<open>auth_waiting\<close> the state after it (the handshake of the login
  process is sent, the worker's is awaited), \<open>auth_ready\<close> the state after the worker's
  handshake advertising mechanism \<open>1\<close>, \<open>auth_gone\<close> the state after this connection has
  been destroyed. In \<open>auth_env1\<close> the socket is there and connects; in \<open>auth_env0\<close> the
  directory is empty; in \<open>auth_env_big\<close> a \<open>NEW\<close> frame is larger than the output buffer.
\<close>

definition auth_env1 :: auth_env where
  "auth_env1 = \<lparr>dir_entries = Some [(''.'', False), (''auth1'', True)],
                 net_connect_unix = (\<lambda>p. 5), send_fails = (\<lambda>d. False),
                 MAX_OUTBUF_SIZE = 1024, login_process_uid = 7, request_new_size = 16\<rparr>"

definition auth_env0 :: auth_env where
  "auth_env0 = \<lparr>dir_entries = Some [], net_connect_unix = (\<lambda>p. - 1),
                 send_fails = (\<lambda>d. False),
                 MAX_OUTBUF_SIZE = 1024, login_process_uid = 7, request_new_size = 16\<rparr>"

definition auth_env_big :: auth_env where
  "auth_env_big = \<lparr>dir_entries = Some [], net_connect_unix = (\<lambda>p. - 1),
                    send_fails = (\<lambda>d. False),
                    MAX_OUTBUF_SIZE = 1024, login_process_uid = 7, request_new_size = 2000\<rparr>"

definition auth_start :: auth_state where
  "auth_start = \<lparr>available_auth_mechs = 0, auth_reconnect = False, request_id_counter = 0,
                  auth_connections = [], auth_waiting_handshake_count = 0, detached = [],
                  request_heap = Map.empty, callback_log = [], sent = [], next_addr = 0\<rparr>"

definition worker_waiting :: auth_connection where
  "worker_waiting = \<lparr>conn_refcount = 1, conn_path = ''auth1'', conn_fd = 5,
                      conn_out_space = 1024, conn_requests = [], conn_pid = 0,
                      conn_available_auth_mechs = 0, conn_handshake_received = False,
                      conn_reply_received = False\<rparr>"

definition worker_ready :: auth_connection where
  "worker_ready = worker_waiting\<lparr>conn_pid := 42, conn_available_auth_mechs := 1,
                                 conn_handshake_received := True\<rparr>"

definition auth_waiting :: auth_state where
  "auth_waiting = auth_start\<lparr>auth_connections := [(0, worker_waiting)],
                             auth_waiting_handshake_count := 1,
                             sent := [(5, Handshake_input 7)], next_addr := 1\<rparr>"

definition auth_ready :: auth_state where
  "auth_ready = auth_waiting\<lparr>auth_connections := [(0, worker_ready)],
                             auth_waiting_handshake_count := 0, available_auth_mechs := 1\<rparr>"

definition auth_gone :: auth_state where
  "auth_gone = auth_ready\<lparr>auth_connections := []\<rparr>"

text \<open>
  A connection that awaits the handshake, holds a pending request (at address 1, with id
  9) and is referenced by its caller as well (\<open>refcount\<close> 2).
\<close>

definition worker_pending :: auth_connection where
  "worker_pending = worker_waiting\<lparr>conn_refcount := 2, conn_requests := [(9, 1)]\<rparr>"

definition auth_pending :: auth_state where
  "auth_pending =
     auth_start\<lparr>auth_connections := [(0, worker_pending)], auth_waiting_handshake_count := 1,
                request_heap := [1 \<mapsto> \<lparr>mech = 0, conn = 0, id_req = 9, callback = 0,
                                        context_req = 0\<rparr>],
                request_id_counter := 9, sent := [(5, Handshake_input 7)], next_addr := 2\<rparr>"

text \<open>
  The sample login process with one request outstanding: the request at address 1, with
  id 1, made first and never answered. \<open>one_outstanding c a snt\<close> is the state in which
  the counter is \<open>c\<close>, the next free address is \<open>a\<close> and the frames sent are \<open>snt\<close>;
  \<open>auth_one\<close> is the state right after that first request.
\<close>

definition rq_first :: auth_request where
  "rq_first = \<lparr>mech = 1, conn = 0, id_req = 1, callback = 10, context_req = 20\<rparr>"

definition one_outstanding :: "uint32 \<Rightarrow> nat \<Rightarrow> (int \<times> frame) list \<Rightarrow> auth_state" where
  "one_outstanding c a snt =
     auth_ready\<lparr>auth_connections := [(0, worker_ready\<lparr>conn_requests := [(1, 1)]\<rparr>)],
                request_id_counter := c, request_heap := [1 \<mapsto> rq_first],
                sent := snt, next_addr := a\<rparr>"

definition auth_one :: auth_state where
  "auth_one = one_outstanding 1 2 [(5, Handshake_input 7), (5, Request_new 0 1 1)]"

text \<open>
  \<open>churn_ops a n\<close>: \<open>n\<close> times a new request that is aborted at once; the requests are
  allocated at the addresses \<open>a\<close>, \<open>a + 1\<close>, ... \<open>churn_sent c n\<close> are the frames this
  sends when the counter starts at \<open>c\<close>.
\<close>

definition churn_ops :: "nat \<Rightarrow> nat \<Rightarrow> auth_op list" where
  "churn_ops a n = concat (map (\<lambda>k. [Init_request 1 0 12 22, Abort_request k]) [a..<a + n])"

definition churn_sent :: "uint32 \<Rightarrow> nat \<Rightarrow> (int \<times> frame) list" where
  "churn_sent c n = map (\<lambda>k. (5, Request_new 0 1 (c + of_nat k + 1))) [0..<n]"

text \<open>
  The state after a second request and the reply \<open>OK\<close> to the first (\<open>auth_after_run\<close>),
  and the state after a request made when the counter has reached its last value while
  the first request is still outstanding (\<open>auth_wrapped\<close>).
\<close>

definition auth_after_run :: auth_state where
  "auth_after_run =
     auth_ready\<lparr>auth_connections := [(0, worker_ready\<lparr>conn_requests := [(2, 2)]\<rparr>)],
                request_id_counter := 2,
                request_heap := [1 \<mapsto> rq_first,
                                 2 \<mapsto> \<lparr>mech = 1, conn = 0, id_req = 2, callback = 11,
                                          context_req = 21\<rparr>](1 := None),
                callback_log := [(1, Some \<lparr>reply_id = 1, reply_result = AUTH_LOGIN_RESULT_OK,
                                            reply_data = ''''\<rparr>)],
                sent := [(5, Handshake_input 7), (5, Request_new 0 1 1), (5, Request_new 0 1 2)],
                next_addr := 3\<rparr>"

definition auth_wrapped :: "nat \<Rightarrow> (int \<times> frame) list \<Rightarrow> auth_state" where
  "auth_wrapped a snt =
     auth_ready\<lparr>auth_connections := [(0, worker_ready\<lparr>conn_requests := [(1, a)]\<rparr>)],
                request_id_counter := 1,
                request_heap := [1 \<mapsto> rq_first,
                                 a \<mapsto> \<lparr>mech = 1, conn = 0, id_req = 1, callback = 12,
                                          context_req = 22\<rparr>],
                sent := snt @ [(5, Request_new 0 1 1)],
                next_addr := a + 1\<rparr>"


section \<open>Binary search over the record array\<close>

lemma strict_uid_nth:
  "sorted_wrt (<) (map uid rec_p) \<Longrightarrow> i < j \<Longrightarrow> j < length rec_p \<Longrightarrow>
     uid (rec_p ! i) < uid (rec_p ! j)"
  using sorted_wrt_nth_less [of "(<)" "map uid rec_p" i j] by simp

lemma uid_search_loop_post:
  assumes "sorted_wrt (<) (map uid rec_p)" and "length rec_p < 2 ^ 31"
    and "right_idx \<le> length rec_p"
    and "\<forall>i<left_idx. uid (rec_p ! i) < first_uid"
    and "\<forall>i. right_idx \<le> i \<and> i < length rec_p \<longrightarrow> first_uid < uid (rec_p ! i)"
    and "left_idx < right_idx \<or> (left_idx = right_idx \<and>
           ((idx = right_idx \<and> idx < length rec_p) \<or> idx + 1 = left_idx))"
  shows "\<exists>k. uid_search_loop rec_p first_uid idx left_idx right_idx = Some (Inr k)
            \<and> search_post rec_p first_uid k"
  using assms
proof (induction "right_idx - left_idx" arbitrary: idx left_idx right_idx rule: less_induct)
  case less
  show ?case
  proof (cases "left_idx < right_idx")
    case False
    with less.prems(6) have eq: "left_idx = right_idx"
      and alt: "(idx = right_idx \<and> idx < length rec_p) \<or> idx + 1 = left_idx" by auto
    have "search_post rec_p first_uid idx"
      using alt less.prems(3,4,5) eq unfolding search_post_def
      by (auto simp: Suc_le_eq)
    moreover have "uid_search_loop rec_p first_uid idx left_idx right_idx = Some (Inr idx)"
      using False by (subst uid_search_loop.simps) simp
    ultimately show ?thesis by blast
  next
    case True
    define m where "m = (left_idx + right_idx) div 2"
    have small: "left_idx + right_idx < 2 ^ 32"
      using True less.prems(2,3) by simp
    have mid: "((left_idx + right_idx) mod 2 ^ 32) div 2 = m"
      using small by (simp add: m_def)
    have m_lo: "left_idx \<le> m" and m_hi: "m < right_idx"
      using True by (auto simp: m_def)
    have m_len: "m < length rec_p" using m_hi less.prems(3) by simp
    have suc: "(m + 1) mod 2 ^ 32 = m + 1"
      using m_len less.prems(2) by simp
    consider (lt) "uid (rec_p ! m) < first_uid" | (gt) "first_uid < uid (rec_p ! m)"
      | (eq) "uid (rec_p ! m) = first_uid" by (metis linorder_less_linear)
    then show ?thesis
    proof cases
      case lt
      have unfold: "uid_search_loop rec_p first_uid idx left_idx right_idx =
                    uid_search_loop rec_p first_uid m (m + 1) right_idx"
        using True lt m_len mid suc by (subst uid_search_loop.simps) (simp add: Let_def)
      have below: "\<forall>i<m + 1. uid (rec_p ! i) < first_uid"
      proof (intro allI impI)
        fix i assume "i < m + 1"
        then have "i = m \<or> i < m" by auto
        then show "uid (rec_p ! i) < first_uid"
          using lt strict_uid_nth [OF less.prems(1) _ m_len, of i] by auto
      qed
      have "\<exists>k. uid_search_loop rec_p first_uid m (m + 1) right_idx = Some (Inr k)
              \<and> search_post rec_p first_uid k"
        by (rule less.hyps [OF _ less.prems(1,2,3) below less.prems(5)])
           (use m_lo m_hi in auto)
      then show ?thesis by (simp add: unfold)
    next
      case gt
      then have ngt: "\<not> uid (rec_p ! m) < first_uid" by simp
      have unfold: "uid_search_loop rec_p first_uid idx left_idx right_idx =
                    uid_search_loop rec_p first_uid m left_idx m"
        using True gt ngt m_len mid by (subst uid_search_loop.simps) (simp add: Let_def)
      have above: "\<forall>i. m \<le> i \<and> i < length rec_p \<longrightarrow> first_uid < uid (rec_p ! i)"
      proof (intro allI impI)
        fix i assume h: "m \<le> i \<and> i < length rec_p"
        then have "i = m \<or> m < i" by auto
        then show "first_uid < uid (rec_p ! i)"
          using gt h strict_uid_nth [OF less.prems(1), of m i] by auto
      qed
      have "\<exists>k. uid_search_loop rec_p first_uid m left_idx m = Some (Inr k)
              \<and> search_post rec_p first_uid k"
        by (rule less.hyps [OF _ less.prems(1,2) _ less.prems(4) above])
           (use m_lo m_hi m_len in auto)
      then show ?thesis by (simp add: unfold)
    next
      case eq
      have "uid_search_loop rec_p first_uid idx left_idx right_idx = Some (Inr m)"
        using True eq m_len mid by (subst uid_search_loop.simps) (simp add: Let_def)
      moreover have "search_post rec_p first_uid m"
        using eq m_len by (simp add: search_post_def)
      ultimately show ?thesis by blast
    qed
  qed
qed


lemma length_takeWhile_first:
  assumes "k < length xs" and "\<not> P (xs ! k)" and "\<forall>i<k. P (xs ! i)"
  shows "length (takeWhile P xs) = k"
proof -
  have "takeWhile P xs = take k xs"
    by (rule takeWhile_eq_take_P_nth) (use assms in auto)
  then show ?thesis using assms(1) by simp
qed

lemma length_takeWhile_all:
  assumes "\<forall>i<length xs. P (xs ! i)"
  shows "length (takeWhile P xs) = length xs"
proof -
  have "\<forall>x\<in>set xs. P x" using assms by (auto simp: in_set_conv_nth)
  then have "takeWhile P xs = xs" by (simp add: takeWhile_eq_all_conv)
  then show ?thesis by (rule arg_cong)
qed

lemma spec_found:
  assumes "k < length recs" and "in_uid_range u1 u2 (recs ! k)"
    and "\<forall>i<k. \<not> in_uid_range u1 u2 (recs ! i)"
  shows "lookup_uid_range_spec recs u1 u2 = (Some (recs ! k), k + 1)"
  using length_takeWhile_first [of k recs "\<lambda>r. \<not> in_uid_range u1 u2 r"] assms
  by (simp add: lookup_uid_range_spec_def)

lemma spec_none:
  assumes "\<forall>i<length recs. \<not> in_uid_range u1 u2 (recs ! i)"
  shows "lookup_uid_range_spec recs u1 u2 = (None, 0)"
  using length_takeWhile_all [of recs "\<lambda>r. \<not> in_uid_range u1 u2 r"] assms
  by (simp add: lookup_uid_range_spec_def)

lemma lookup_uid_range_tail:
  assumes srt: "sorted_wrt (<) (map uid rec_p)" and len: "length rec_p < 2 ^ 31"
    and u: "first_uid \<le> last_uid" and post: "search_post rec_p first_uid k"
  shows "(if length rec_p \<le> k then Some (Inl Out_of_bounds_read)
          else if uid (rec_p ! k) < first_uid \<or> uid (rec_p ! k) > last_uid then
            (let idx1 = (k + 1) mod 2 ^ 32 in
             if idx1 = length rec_p then Some (Inr (None, 0))
             else if length rec_p \<le> idx1 then Some (Inl Out_of_bounds_read)
             else if uid (rec_p ! idx1) < first_uid \<or> uid (rec_p ! idx1) > last_uid then
               Some (Inr (None, 0))
             else Some (Inr (Some (rec_p ! idx1), (idx1 + 1) mod 2 ^ 32)))
          else Some (Inr (Some (rec_p ! k), (k + 1) mod 2 ^ 32)))
         = Some (Inr (lookup_uid_range_spec rec_p first_uid last_uid))"
proof -
  from post have k: "k < length rec_p" by (simp add: search_post_def)
  have m1: "(k + 1) mod 2 ^ 32 = k + 1" using k len by simp
  have m2: "k + 1 < length rec_p \<Longrightarrow> (k + 1 + 1) mod 2 ^ 32 = k + 2" using len by simp
  have mono: "\<And>i j. i < j \<Longrightarrow> j < length rec_p \<Longrightarrow> uid (rec_p ! i) < uid (rec_p ! j)"
    using strict_uid_nth [OF srt] by blast
  show ?thesis
  proof (cases "in_uid_range first_uid last_uid (rec_p ! k)")
    case True
    have "\<forall>i<k. \<not> in_uid_range first_uid last_uid (rec_p ! i)"
    proof (intro allI impI)
      fix i assume "i < k"
      then have "uid (rec_p ! i) < uid (rec_p ! k)" using mono k by blast
      moreover have "uid (rec_p ! k) = first_uid \<or> (\<forall>i<k. uid (rec_p ! i) < first_uid)"
        using post True by (auto simp: search_post_def in_uid_range_def)
      ultimately show "\<not> in_uid_range first_uid last_uid (rec_p ! i)"
        using \<open>i < k\<close> by (auto simp: in_uid_range_def)
    qed
    then have "lookup_uid_range_spec rec_p first_uid last_uid = (Some (rec_p ! k), k + 1)"
      using spec_found [OF k True] by simp
    then show ?thesis using True k m1 by (auto simp: in_uid_range_def)
  next
    case False
    then have out: "uid (rec_p ! k) < first_uid \<or> uid (rec_p ! k) > last_uid"
      by (auto simp: in_uid_range_def)
    have below: "\<forall>i\<le>k. \<not> in_uid_range first_uid last_uid (rec_p ! i)"
    proof (intro allI impI)
      fix i assume ik: "i \<le> k"
      show "\<not> in_uid_range first_uid last_uid (rec_p ! i)"
      proof (cases "i = k")
        case True then show ?thesis using False by simp
      next
        case neq: False
        then have lt: "i < k" using ik by simp
        then have "uid (rec_p ! i) < uid (rec_p ! k)" using mono k by blast
        moreover have "uid (rec_p ! k) < first_uid \<or> (\<forall>i<k. uid (rec_p ! i) < first_uid)"
          using post out u by (auto simp: search_post_def)
        ultimately show ?thesis using lt by (auto simp: in_uid_range_def)
      qed
    qed
    show ?thesis
    proof (cases "k + 1 = length rec_p")
      case True
      then have "\<forall>i<length rec_p. \<not> in_uid_range first_uid last_uid (rec_p ! i)"
        using below by (auto simp: less_Suc_eq_le)
      then have "lookup_uid_range_spec rec_p first_uid last_uid = (None, 0)"
        by (rule spec_none)
      then show ?thesis using out k m1 True by (simp add: Let_def)
    next
      case nlast: False
      then have k1: "k + 1 < length rec_p" using k by simp
      show ?thesis
      proof (cases "in_uid_range first_uid last_uid (rec_p ! (k + 1))")
        case True
        have "\<forall>i<k + 1. \<not> in_uid_range first_uid last_uid (rec_p ! i)"
          using below by (auto simp: less_Suc_eq_le)
        then have "lookup_uid_range_spec rec_p first_uid last_uid =
                     (Some (rec_p ! (k + 1)), k + 1 + 1)"
          using spec_found [OF k1 True] by simp
        then show ?thesis using out k k1 m1 m2 True nlast
          by (auto simp: Let_def in_uid_range_def)
      next
        case nin: False
        have big: "last_uid < uid (rec_p ! (k + 1))"
        proof -
          have "first_uid < uid (rec_p ! (k + 1))"
          proof (cases "uid (rec_p ! k) < first_uid")
            case True
            then have "\<forall>i. k < i \<and> i < length rec_p \<longrightarrow> first_uid < uid (rec_p ! i)"
              using post by (auto simp: search_post_def)
            then show ?thesis using k1 by simp
          next
            case False
            then have "first_uid \<le> uid (rec_p ! k)" by simp
            moreover have "uid (rec_p ! k) < uid (rec_p ! (k + 1))" using mono k1 by simp
            ultimately show ?thesis by simp
          qed
          then show ?thesis using nin by (auto simp: in_uid_range_def)
        qed
        have "\<forall>i<length rec_p. \<not> in_uid_range first_uid last_uid (rec_p ! i)"
        proof (intro allI impI)
          fix i assume il: "i < length rec_p"
          show "\<not> in_uid_range first_uid last_uid (rec_p ! i)"
          proof (cases "i \<le> k")
            case True then show ?thesis using below by simp
          next
            case False
            then have "i = k + 1 \<or> k + 1 < i" by auto
            then have "uid (rec_p ! (k + 1)) \<le> uid (rec_p ! i)"
              using mono [of "k + 1" i] il by auto
            then show ?thesis using big by (auto simp: in_uid_range_def)
          qed
        qed
        then have "lookup_uid_range_spec rec_p first_uid last_uid = (None, 0)"
          by (rule spec_none)
        then show ?thesis using out k k1 m1 nlast nin
          by (auto simp: Let_def in_uid_range_def)
      qed
    qed
  qed
qed

lemma lookup_uid_range_nonempty:
  assumes "sorted_wrt (<) (map uid (records index))"
    and "records index \<noteq> []" and "length (records index) < 2 ^ 31"
    and "lock_type index \<noteq> MAIL_LOCK_UNLOCK"
    and "0 < first_uid" and "first_uid \<le> last_uid"
  shows "mail_index_lookup_uid_range index first_uid last_uid =
           Some (Inr (lookup_uid_range_spec (records index) first_uid last_uid))"
proof -
  obtain k where loop: "uid_search_loop (records index) first_uid 0 0 (length (records index))
                          = Some (Inr k)"
    and post: "search_post (records index) first_uid k"
  proof -
    have "\<exists>k. uid_search_loop (records index) first_uid 0 0 (length (records index))
                 = Some (Inr k) \<and> search_post (records index) first_uid k"
      by (rule uid_search_loop_post [OF assms(1,3)]) (use assms(2) in auto)
    then show ?thesis using that by blast
  qed
  show ?thesis
    using assms(4,5,6) loop lookup_uid_range_tail [OF assms(1,3,6) post]
    by (simp add: mail_index_lookup_uid_range_def MAIL_INDEX_RECORD_COUNT_def Let_def)
qed


text \<open>
  On an array with at least one record and strictly increasing UIDs the function returns
  what the specification asks for (\<open>lookup_uid_range_nonempty\<close>). On the empty array the
  loop is skipped with \<open>idx = 0\<close> and \<open>rec_p[0].uid\<close> is read although the array has no
  record.
\<close>

text \<open>
  Claim C5. For the empty record array and the range \<open>[1, 1]\<close> the specification asks
  for \<open>(None, 0)\<close>; \<open>mail_index_lookup_uid_range\<close> reads a record outside the array.
\<close>

theorem lookup_uid_range_empty_array:
  "mail_index_lookup_uid_range empty_index 1 1 = Some (Inl Out_of_bounds_read)
   \<and> lookup_uid_range_spec (records empty_index) 1 1 = (None, 0)"
  by (simp add: empty_index_def mail_index_lookup_uid_range_def MAIL_INDEX_RECORD_COUNT_def
      uid_search_loop.simps lookup_uid_range_spec_def)

section \<open>Expunging a range of records\<close>

lemma memmove_tail_down:
  assumes "first_idx \<le> last_idx" and "last_idx < length rec"
  shows "take (length rec - (last_idx - first_idx + 1))
           (memmove_records rec first_idx (last_idx + 1) (length rec - last_idx - 1))
         = take first_idx rec @ drop (last_idx + 1) rec"
  using assms by (simp add: memmove_records_def)

lemma mark_fold_records:
  "records (foldl (\<lambda>ix i. mail_index_mark_flag_changes ix (records ix ! i)
                              (msg_flags (records ix ! i)) 0) index is) = records index"
  by (induction "is" arbitrary: index) (simp_all add: mail_index_mark_flag_changes_def)

lemma mark_fold_count:
  "messages_count (foldl (\<lambda>ix i. mail_index_mark_flag_changes ix (records ix ! i)
                              (msg_flags (records ix ! i)) 0) index is) = messages_count index"
  by (induction "is" arbitrary: index) (simp_all add: mail_index_mark_flag_changes_def)

lemma mark_fold_lock:
  "lock_type (foldl (\<lambda>ix i. mail_index_mark_flag_changes ix (records ix ! i)
                              (msg_flags (records ix ! i)) 0) index is) = lock_type index"
  by (induction "is" arbitrary: index) (simp_all add: mail_index_mark_flag_changes_def)

lemma mark_loop_fields:
  "records (expunge_mark_loop index a b) = records index"
  "messages_count (expunge_mark_loop index a b) = messages_count index"
  "lock_type (expunge_mark_loop index a b) = lock_type index"
  by (simp_all only: expunge_mark_loop_def mark_fold_records mark_fold_count mark_fold_lock)

lemma expunge_result:
  assumes "lock_type index = MAIL_LOCK_EXCLUSIVE"
    and "first_idx \<le> last_idx" and "last_idx < length (records index)"
  shows "\<exists>index'. mail_index_expunge_record_range truncate_ret index first_idx last_idx
                      = Inr (truncate_ret, index')
           \<and> records index' = take first_idx (records index) @ drop (last_idx + 1) (records index)
           \<and> messages_count index' = messages_count index - of_nat (last_idx - first_idx + 1)
           \<and> lock_type index' = lock_type index"
  using assms memmove_tail_down [OF assms(2,3)]
  by (simp add: mail_index_expunge_record_range_def compress_def MAIL_INDEX_RECORD_COUNT_def
      Let_def mark_loop_fields)

lemma sorted_wrt_take_drop:
  assumes "sorted_wrt (<) (xs :: uint32 list)" and "a \<le> b"
  shows "sorted_wrt (<) (take a xs @ drop b xs)"
proof -
  have "\<forall>x\<in>set (take a xs). \<forall>y\<in>set (drop b xs). x < y"
  proof (intro ballI)
    fix x y assume "x \<in> set (take a xs)" and "y \<in> set (drop b xs)"
    then obtain i j where i: "i < a" "i < length xs" "x = xs ! i"
      and j: "j < length xs - b" "y = xs ! (b + j)"
      by (auto simp: in_set_conv_nth)
    then have "i < b + j" and "b + j < length xs" using assms(2) by auto
    then show "x < y" using sorted_wrt_nth_less [OF assms(1)] i j by simp
  qed
  then show ?thesis
    using assms(1) by (simp add: sorted_wrt_append sorted_wrt_take sorted_wrt_drop)
qed

text \<open>
  Claim C6. When \<open>mail_index_expunge_record_range\<close> removes the records at positions
  \<open>first_idx..last_idx\<close> (sequences \<open>first_idx + 1..last_idx + 1\<close>) of an array with strictly
  increasing UIDs, \<open>messages_count\<close> drops by the length of the range, the remaining
  records are still strictly increasing in UID, the records before the range stay where
  they were, every record after it moves down by the length of the range, and the record
  that was at sequence \<open>last_idx + 2\<close> is afterwards at sequence \<open>first_idx + 1\<close>.
\<close>

theorem expunge_range_compacts:
  assumes "sorted_wrt (<) (map uid (records index))"
    and "lock_type index = MAIL_LOCK_EXCLUSIVE"
    and "first_idx \<le> last_idx" and "last_idx < length (records index)"
    and "unat (messages_count index) = length (records index)"
  shows "\<exists>index'. mail_index_expunge_record_range truncate_ret index first_idx last_idx
                      = Inr (truncate_ret, index')
           \<and> messages_count index' = messages_count index - of_nat (last_idx - first_idx + 1)
           \<and> unat (messages_count index') = length (records index) - (last_idx - first_idx + 1)
           \<and> length (records index') = length (records index) - (last_idx - first_idx + 1)
           \<and> sorted_wrt (<) (map uid (records index'))
           \<and> (\<forall>i<first_idx. records index' ! i = records index ! i)
           \<and> (\<forall>i. first_idx \<le> i \<and> i < length (records index') \<longrightarrow>
                  records index' ! i = records index ! (i + (last_idx - first_idx + 1)))
           \<and> (last_idx + 1 < length (records index) \<longrightarrow>
                  mail_index_lookup index (last_idx + 1 + 1)
                    = Inr (Some (records index ! (last_idx + 1)))
                \<and> mail_index_lookup index' (first_idx + 1)
                    = Inr (Some (records index ! (last_idx + 1))))"
proof -
  let ?n = "last_idx - first_idx + 1"
  obtain index' where
    run: "mail_index_expunge_record_range truncate_ret index first_idx last_idx
            = Inr (truncate_ret, index')"
    and recs: "records index' = take first_idx (records index) @ drop (last_idx + 1) (records index)"
    and cnt: "messages_count index' = messages_count index - of_nat ?n"
    and lck: "lock_type index' = lock_type index"
    using expunge_result [OF assms(2,3,4)] by blast
  have len: "length (records index') = length (records index) - ?n"
    using recs assms(3,4) by simp
  have n_le: "?n \<le> length (records index)" using assms(3,4) by simp
  have un: "unat (of_nat ?n :: uint32) = ?n"
    using le_unat_uoi [of ?n "messages_count index"] n_le assms(5) by simp
  then have "(of_nat ?n :: uint32) \<le> messages_count index"
    using n_le assms(5) by (simp add: word_le_nat_alt)
  then have "unat (messages_count index - of_nat ?n) = unat (messages_count index) - ?n"
    using un by (simp add: unat_sub)
  then have ucnt: "unat (messages_count index') = length (records index) - ?n"
    using cnt assms(5) by simp
  have srt: "sorted_wrt (<) (map uid (records index'))"
    using sorted_wrt_take_drop [OF assms(1), of first_idx "last_idx + 1"] assms(3)
    by (simp add: recs take_map drop_map)
  have low: "\<forall>i<first_idx. records index' ! i = records index ! i"
    using assms(3,4) by (simp add: recs nth_append)
  have high: "\<forall>i. first_idx \<le> i \<and> i < length (records index') \<longrightarrow>
                  records index' ! i = records index ! (i + ?n)"
  proof (intro allI impI)
    fix i assume h: "first_idx \<le> i \<and> i < length (records index')"
    then have "records index' ! i = drop (last_idx + 1) (records index) ! (i - first_idx)"
      using assms(3,4) by (simp add: recs nth_append min_def)
    also have "\<dots> = records index ! (last_idx + 1 + (i - first_idx))"
      using h len assms(3,4) by simp
    also have "last_idx + 1 + (i - first_idx) = i + ?n" using h assms(3) by simp
    finally show "records index' ! i = records index ! (i + ?n)" .
  qed
  have look: "mail_index_lookup index (last_idx + 1 + 1) = Inr (Some (records index ! (last_idx + 1)))
                \<and> mail_index_lookup index' (first_idx + 1) = Inr (Some (records index ! (last_idx + 1)))"
    if more: "last_idx + 1 < length (records index)"
  proof -
    have f: "first_idx < length (records index')" using len more assms(3) by simp
    have "records index' ! first_idx = records index ! (first_idx + ?n)"
      using high f by simp
    moreover have "first_idx + ?n = last_idx + 1" using assms(3) by simp
    ultimately have at: "records index' ! first_idx = records index ! (last_idx + 1)" by simp
    show ?thesis
      using more f at ucnt len assms(2,5) lck
      by (simp add: mail_index_lookup_def)
  qed
  show ?thesis
    using run cnt ucnt len srt low high look by blast
qed


theorem expunge_range_compacts_witness:
  "sorted_wrt (<) (map uid (records example_index))
   \<and> lock_type example_index = MAIL_LOCK_EXCLUSIVE
   \<and> (1::nat) \<le> 2 \<and> 2 < length (records example_index)
   \<and> unat (messages_count example_index) = length (records example_index)
   \<and> (\<exists>index'. mail_index_expunge_record_range 1 example_index 1 2 = Inr (1, index')
         \<and> messages_count index' = 2
         \<and> records index' = [\<lparr>uid = 2, msg_flags = 0\<rparr>, \<lparr>uid = 9, msg_flags = 8\<rparr>]
         \<and> mail_index_lookup index' 2 = Inr (Some \<lparr>uid = 9, msg_flags = 8\<rparr>))"
proof -
  have h1: "sorted_wrt (<) (map uid (records example_index))"
    by (simp add: example_index_def)
  have h2: "lock_type example_index = MAIL_LOCK_EXCLUSIVE" by (simp add: example_index_def)
  have h3: "(1::nat) \<le> 2" by simp
  have h4: "2 < length (records example_index)" by (simp add: example_index_def)
  have h5: "unat (messages_count example_index) = length (records example_index)"
    by (simp add: example_index_def)
  obtain index' where
    run: "mail_index_expunge_record_range 1 example_index 1 2 = Inr (1, index')"
    and cnt: "messages_count index' = messages_count example_index - of_nat (2 - 1 + 1)"
    and len: "length (records index') = length (records example_index) - (2 - 1 + 1)"
    and low: "\<forall>i<1. records index' ! i = records example_index ! i"
    and high: "\<forall>i. 1 \<le> i \<and> i < length (records index') \<longrightarrow>
                 records index' ! i = records example_index ! (i + (2 - 1 + 1))"
    and look: "2 + 1 < length (records example_index) \<longrightarrow>
                 mail_index_lookup example_index (2 + 1 + 1)
                    = Inr (Some (records example_index ! (2 + 1)))
                 \<and> mail_index_lookup index' (1 + 1)
                    = Inr (Some (records example_index ! (2 + 1)))"
    using expunge_range_compacts [OF h1 h2 h3 h4 h5, of 1] by blast
  have l2: "length (records index') = 2" using len by (simp add: example_index_def)
  have r0: "records index' ! 0 = \<lparr>uid = 2, msg_flags = 0\<rparr>"
    using low by (simp add: example_index_def)
  have r1: "records index' ! 1 = \<lparr>uid = 9, msg_flags = 8\<rparr>"
    using high l2 by (simp add: example_index_def)
  have recs: "records index' = [\<lparr>uid = 2, msg_flags = 0\<rparr>, \<lparr>uid = 9, msg_flags = 8\<rparr>]"
    using l2 r0 r1 by (intro nth_equalityI) (auto simp: less_Suc_eq numeral_2_eq_2)
  have c2: "messages_count index' = 2" using cnt by (simp add: example_index_def)
  have e: "(1::nat) + 1 = 2" by simp
  have "mail_index_lookup index' 2 = Inr (Some (records example_index ! (2 + 1)))"
    using look [unfolded e] h4 by (simp add: example_index_def)
  then have lk: "mail_index_lookup index' 2 = Inr (Some \<lparr>uid = 9, msg_flags = 8\<rparr>)"
    by (simp add: example_index_def)
  show ?thesis using h1 h2 h3 h4 h5 run c2 recs lk by blast
qed

section \<open>Properties of the save code\<close>

subsection \<open>General lemmas\<close>

lemma recent_only_iff:
  fixes flags r :: uint32
  assumes "r \<noteq> 0"
  shows "((flags AND NOT r) OR (if keep then r else 0) = r) \<longleftrightarrow> (keep \<and> flags AND NOT r = 0)"
proof (cases keep)
  case True
  have "(flags AND NOT r) OR r = r \<longleftrightarrow> flags AND NOT r = 0"
  proof
    assume h: "(flags AND NOT r) OR r = r"
    have "flags AND NOT r = (flags AND NOT r) AND ((flags AND NOT r) OR r)"
      by (simp add: bit_eq_iff bit_simps)
    also have "\<dots> = (flags AND NOT r) AND r" using h by simp
    also have "\<dots> = 0" by (simp add: bit_eq_iff bit_simps)
    finally show "flags AND NOT r = 0" .
  next
    assume "flags AND NOT r = 0"
    then show "(flags AND NOT r) OR r = r" by simp
  qed
  then show ?thesis using True by simp
next
  case False
  have "flags AND NOT r \<noteq> r"
  proof
    assume h: "flags AND NOT r = r"
    have "r = r AND r" by simp
    also have "\<dots> = (flags AND NOT r) AND r" using h by simp
    also have "\<dots> = 0" by (simp add: bit_eq_iff bit_simps)
    finally show False using assms by simp
  qed
  then show ?thesis using False by simp
qed

lemma save_init_files:
  assumes "maildir_save_init api env ibox save_ctx flags recv_date inp st = Inr (ctx, w', u')"
    and "fd ctx \<noteq> - 1"
  shows "\<exists>mf. files ctx = mf # files (case save_ctx of
                                        None \<Rightarrow> maildir_transaction_save_init env ibox
                                      | Some c \<Rightarrow> c)
           \<and> dest mf = (if (flags AND NOT (MAIL_RECENT api))
                             OR (if keep_recent ibox then MAIL_RECENT api else 0) = MAIL_RECENT api
                         then None
                         else Some (maildir_filename_set_flags api (basename mf)
                                     ((flags AND NOT (MAIL_RECENT api))
                                       OR (if keep_recent ibox then MAIL_RECENT api else 0))))"
  using assms
  by (auto simp: maildir_save_init_def Let_def split: prod.splits if_splits)

lemma set_message_calls:
  "calls (mail_storage_set_error w m) = calls w"
  "calls (mail_storage_set_critical w m) = calls w"
  by (simp_all add: mail_storage_set_error_def mail_storage_set_critical_def)
lemma sys_link_calls: "calls (snd (sys_link w a b)) = calls w @ [Link a b]"
  by (simp add: sys_link_def Let_def split: option.splits)

lemma sys_unlink_calls: "calls (snd (sys_unlink w a)) = calls w @ [Unlink a]"
  by (simp add: sys_unlink_def Let_def split: option.splits)
lemma file_move_calls:
  "calls (snd (maildir_file_move w ctx (basename mf) (dest mf))) = calls w @ move_calls ctx mf"
  by (simp add: maildir_file_move_def Let_def case_prod_beta dest_path_def move_calls_def
      sys_link_calls sys_unlink_calls set_message_calls split: option.splits)

lemma commit_loop_calls:
  "commit_loop api ctx w u fs = (None, w', u') \<Longrightarrow>
     calls w' = calls w @ concat (map (move_calls ctx) fs)"
proof (induction fs arbitrary: w u)
  case Nil
  then show ?case by simp
next
  case (Cons mf rest)
  obtain mr w1 where mv: "maildir_file_move w ctx (basename mf) (dest mf) = (mr, w1)"
    by (cases "maildir_file_move w ctx (basename mf) (dest mf)")
  obtain sr u1 where sn: "maildir_uidlist_sync_next api u
       (case dest mf of Some d \<Rightarrow> d | None \<Rightarrow> basename mf) = (sr, u1)"
    by (cases "maildir_uidlist_sync_next api u (case dest mf of Some d \<Rightarrow> d | None \<Rightarrow> basename mf)")
  have c1: "calls w1 = calls w @ move_calls ctx mf"
    using file_move_calls [of w ctx mf] mv by simp
  from Cons.prems mv sn have "commit_loop api ctx w1 u1 rest = (None, w', u')"
    by (simp add: Let_def split: if_splits)
  then have "calls w' = calls w1 @ concat (map (move_calls ctx) rest)"
    by (rule Cons.IH)
  then show ?case using c1 by simp
qed

lemma commit_success:
  assumes "maildir_transaction_save_commit api ctx (w, u) = Inr r" and "ret r \<noteq> - 1"
  shows "uids r = Some (maildir_uidlist_get_next_uid api (state_under_lock api u),
                        maildir_uidlist_get_next_uid api (state_after r))"
    and "calls (world_after r) = calls w @ concat (map (move_calls ctx) (files ctx))"
    and "ret r = fst (maildir_uidlist_lock api u)" and "0 < ret r"
proof -
  obtain lock_ret u1 where lk: "maildir_uidlist_lock api u = (lock_ret, u1)"
    by (cases "maildir_uidlist_lock api u")
  obtain sync_ret u2 where sy: "maildir_sync_index api u1 = (sync_ret, u2)"
    by (cases "maildir_sync_index api u1")
  obtain last_uid u3 where asg: "mail_index_append_assign_uids api u2
        (maildir_uidlist_get_next_uid api u2) = (last_uid, u3)"
    by (cases "mail_index_append_assign_uids api u2 (maildir_uidlist_get_next_uid api u2)")
  obtain pos w1 u5 where lp: "commit_loop api ctx w (maildir_uidlist_sync_init api u3) (files ctx)
        = (pos, w1, u5)"
    by (cases "commit_loop api ctx w (maildir_uidlist_sync_init api u3) (files ctx)")
  obtain dr u6 where de: "maildir_uidlist_sync_deinit api u5 = (dr, u6)"
    by (cases "maildir_uidlist_sync_deinit api u5")
  have under: "state_under_lock api u = u2" using lk sy by (simp add: state_under_lock_def)
  from assms lk sy asg lp de
  have all: "0 < lock_ret \<and> pos = None \<and> maildir_uidlist_get_next_uid api u6 = last_uid
             \<and> r = \<lparr>ret = lock_ret,
                     uids = Some (maildir_uidlist_get_next_uid api u2, last_uid),
                     world_after = w1, state_after = u6\<rparr>"
    by (auto simp: maildir_transaction_save_commit_def Let_def
        split: if_splits sum.splits option.splits)
  then show "uids r = Some (maildir_uidlist_get_next_uid api (state_under_lock api u),
                        maildir_uidlist_get_next_uid api (state_after r))"
    using under by simp
  show "calls (world_after r) = calls w @ concat (map (move_calls ctx) (files ctx))"
    using all lp commit_loop_calls [of api ctx w _ "files ctx" w1 u5] by simp
  show "ret r = fst (maildir_uidlist_lock api u)" using all lk by simp
  show "0 < ret r" using all by simp
qed

lemma finish_of_failed:
  assumes f: "failed ctx"
    and run: "maildir_save_finish api want_mail_r ctx (w, u) = Inr (r, ctx', w')"
  shows "r = - 1 \<and> failed ctx' \<and> fd ctx' = - 1"
proof (cases "fd ctx = - 1")
  case True
  then show ?thesis using f run by (simp add: maildir_save_finish_def)
next
  case nfd: False
  show ?thesis
  proof (cases "files ctx")
    case Nil
    then show ?thesis using f nfd run by (simp add: maildir_save_finish_def)
  next
    case (Cons mf rest)
    let ?p = "tmpdir ctx @ CHR ''/'' # basename mf"
    obtain r0 w0 where ut: "sys_utime w ?p (ioloop_time w) (received_date ctx) = (r0, w0)"
      by (cases "sys_utime w ?p (ioloop_time w) (received_date ctx)")
    define w1 where "w1 = (if received_date ctx \<noteq> - 1 then
        (if r0 \<noteq> None then mail_storage_set_critical w0 ''utime(%s) failed: %m'' else w0)
        else w)"
    have step1: "(if received_date ctx \<noteq> - 1 then
                       (let (r, w') = sys_utime w ?p (ioloop_time w) (received_date ctx)
                        in if r \<noteq> None
                           then (ctx\<lparr>failed := True\<rparr>,
                                 mail_storage_set_critical w' ''utime(%s) failed: %m'')
                           else (ctx, w'))
                     else (ctx, w)) = (ctx, w1)"
      using f ut by (simp add: w1_def)
    show ?thesis
    proof (cases "output_stream ctx")
      case None
      then show ?thesis using f nfd run Cons step1
        by (simp add: maildir_save_finish_def Let_def)
    next
      case (Some out)
      obtain fr w2 where fs: "sys_fsync w1 (fd ctx) = (fr, w2)"
        by (cases "sys_fsync w1 (fd ctx)")
      define w3 where "w3 = (if fr \<noteq> None
          then mail_storage_set_critical w2 ''fsync(%s) failed: %m'' else w2)"
      obtain cr w4 where cl: "sys_close w3 (fd ctx) = (cr, w4)"
        by (cases "sys_close w3 (fd ctx)")
      define w5 where "w5 = (if cr \<noteq> None
          then mail_storage_set_critical w4 ''close(%s) failed: %m'' else w4)"
      obtain ur w6 where ul: "sys_unlink w5 ?p = (ur, w6)"
        by (cases "sys_unlink w5 ?p")
      have "\<exists>w8. maildir_save_finish api want_mail_r ctx (w, u)
                   = Inr (- 1, ctx\<lparr>output_stream := None, fd := - 1, files := rest\<rparr>, w8)"
        using f nfd Cons Some step1 fs cl ul
        by (cases fr; cases cr)
           (simp_all add: maildir_save_finish_def Let_def w3_def w5_def)
      then show ?thesis using run f by auto
    qed
  qed
qed

subsection \<open>The sample environment, evaluated\<close>

lemmas demo_simps =
  demo_api_def demo_create_tmp_def demo_world_def demo_uidlist_def demo_ibox_def
  demo_ctx1_def demo_world1_def demo_uidlist1_def demo_ctx2_def demo_world2_def demo_uidlist2_def
  demo_ctx_open1_def demo_world_open1_def demo_ctx_open2_def demo_world_open2_def
  demo_commit1_def demo_commit2_def full_disk_api_def demo_failed_ctx_def
  demo_cleaned_ctx_def demo_cleaned_world_def plain_ibox_def demo_set_flags_def

lemmas save_simps =
  save_message_def maildir_save_init_def maildir_transaction_save_init_def
  maildir_save_continue_def maildir_save_finish_def after_last_slash_def
  sys_utime_def sys_fsync_def sys_close_def sys_unlink_def sys_link_def
  mail_storage_set_error_def mail_storage_set_critical_def Let_def ENOSPACE_def

lemmas commit_simps =
  maildir_transaction_save_commit_def maildir_file_move_def maildir_save_commit_abort_def
  maildir_transaction_save_rollback_def sys_unlink_def sys_link_def
  mail_storage_set_error_def mail_storage_set_critical_def Let_def

lemma demo_init_first:
  "maildir_save_init demo_api Map.empty demo_ibox None 0 500 \<lparr>unread = ''Hello''\<rparr>
     (demo_world, demo_uidlist) = Inr (demo_ctx_open1, demo_world_open1, demo_uidlist1)"
  by (simp add: demo_simps save_simps)

lemma demo_init_crlf:
  "maildir_save_init demo_api [''MAIL_SAVE_CRLF'' \<mapsto> ''''] demo_ibox None 0 500
     \<lparr>unread = ''Hello''\<rparr> (demo_world, demo_uidlist)
   = Inr (demo_ctx_open1\<lparr>output_stream := Some \<lparr>crlf = True, ostream_fd = 3,
                                                    stream_errno = None\<rparr>,
                          save_crlf := True\<rparr>,
          demo_world_open1, demo_uidlist1)"
  by (simp add: demo_simps save_simps)

lemma demo_init_recent_plain:
  "maildir_save_init demo_api Map.empty plain_ibox None 32 500 \<lparr>unread = ''Hello''\<rparr>
     (demo_world, demo_uidlist)
   = Inr (demo_ctx_open1\<lparr>files := [\<lparr>basename = ''msg0'', dest = Some ''msg0:2,''\<rparr>]\<rparr>,
          demo_world_open1, demo_uidlist1)"
  by (simp add: demo_simps save_simps)

lemma demo_init_second:
  "maildir_save_init demo_api Map.empty demo_ibox (Some demo_ctx1) 0 600 \<lparr>unread = ''World''\<rparr>
     (demo_world1, demo_uidlist1) = Inr (demo_ctx_open2, demo_world_open2, demo_uidlist2)"
  by (simp add: demo_simps save_simps)

lemma demo_save_first:
  "save_message demo_api Map.empty demo_ibox None 0 500 \<lparr>unread = ''Hello''\<rparr>
     (demo_world, demo_uidlist) = Inr (0, demo_ctx1, demo_world1, demo_uidlist1)"
  by (simp add: demo_simps save_simps)

lemma demo_save_second:
  "save_message demo_api Map.empty demo_ibox (Some demo_ctx1) 0 600 \<lparr>unread = ''World''\<rparr>
     (demo_world1, demo_uidlist1) = Inr (0, demo_ctx2, demo_world2, demo_uidlist2)"
  by (simp add: demo_simps save_simps)

lemma demo_commit_one:
  "maildir_transaction_save_commit demo_api demo_ctx1 (demo_world1, demo_uidlist1)
     = Inr demo_commit1"
  by (simp add: demo_simps commit_simps)

lemma demo_commit_two:
  "maildir_transaction_save_commit demo_api demo_ctx2 (demo_world2, demo_uidlist2)
     = Inr demo_commit2"
  by (simp add: demo_simps commit_simps)

lemma demo_continue_full_disk:
  "maildir_save_continue full_disk_api demo_ctx_open1 = Inr (- 1, demo_failed_ctx)"
  by (simp add: demo_simps save_simps)

lemma demo_finish_failed:
  "maildir_save_finish full_disk_api False demo_failed_ctx (demo_world_open1, demo_uidlist1)
     = Inr (- 1, demo_cleaned_ctx, demo_cleaned_world)"
  by (simp add: demo_simps save_simps)

subsection \<open>Order of publication\<close>

text \<open>
  Claim C1, as the code has it. A successful commit makes, for the staged files in the
  order of the context's list, one \<open>link\<close> to the destination followed by one \<open>unlink\<close>
  of the temporary name, and nothing else; and \<open>maildir_save_init\<close> puts the file of the
  new message at the head of that list, before the files saved earlier. So the message
  saved last is linked first.
\<close>

theorem commit_links_in_list_order:
  "(maildir_transaction_save_commit api ctx (w, u) = Inr r \<and> ret r \<noteq> - 1 \<longrightarrow>
      calls (world_after r) = calls w @ concat (map (move_calls ctx) (files ctx)))
   \<and> (maildir_save_init api env ibox (Some c) flags recv_date inp st = Inr (ctx', w', u')
        \<and> fd ctx' \<noteq> - 1 \<longrightarrow>
      files ctx' \<noteq> [] \<and> tl (files ctx') = files c)"
proof (intro conjI impI)
  assume "maildir_transaction_save_commit api ctx (w, u) = Inr r \<and> ret r \<noteq> - 1"
  then have a: "maildir_transaction_save_commit api ctx (w, u) = Inr r" and b: "ret r \<noteq> - 1"
    by simp_all
  show "calls (world_after r) = calls w @ concat (map (move_calls ctx) (files ctx))"
    by (rule commit_success(2) [OF a b])
next
  assume h: "maildir_save_init api env ibox (Some c) flags recv_date inp st = Inr (ctx', w', u')
             \<and> fd ctx' \<noteq> - 1"
  then obtain mf where "files ctx' = mf # files c"
    using save_init_files [of api env ibox "Some c" flags recv_date inp st ctx' w' u'] by auto
  then show "files ctx' \<noteq> []" "tl (files ctx') = files c" by simp_all
qed

theorem commit_links_in_list_order_witness:
  "maildir_transaction_save_commit demo_api demo_ctx2 (demo_world2, demo_uidlist2)
     = Inr demo_commit2
   \<and> ret demo_commit2 \<noteq> - 1
   \<and> calls (world_after demo_commit2)
       = calls demo_world2 @ [Link ''/mbox/tmp/msg1'' ''/mbox/new/msg1'', Unlink ''/mbox/tmp/msg1'',
                              Link ''/mbox/tmp/msg0'' ''/mbox/new/msg0'', Unlink ''/mbox/tmp/msg0'']
   \<and> maildir_save_init demo_api Map.empty demo_ibox (Some demo_ctx1) 0 600 \<lparr>unread = ''World''\<rparr>
        (demo_world1, demo_uidlist1) = Inr (demo_ctx_open2, demo_world_open2, demo_uidlist2)
   \<and> fd demo_ctx_open2 \<noteq> - 1
   \<and> files demo_ctx_open2 \<noteq> [] \<and> tl (files demo_ctx_open2) = files demo_ctx1"
proof -
  have c: "maildir_transaction_save_commit demo_api demo_ctx2 (demo_world2, demo_uidlist2)
             = Inr demo_commit2" by (rule demo_commit_two)
  have r: "ret demo_commit2 \<noteq> - 1" by (simp add: demo_commit2_def)
  have i: "maildir_save_init demo_api Map.empty demo_ibox (Some demo_ctx1) 0 600
             \<lparr>unread = ''World''\<rparr> (demo_world1, demo_uidlist1)
           = Inr (demo_ctx_open2, demo_world_open2, demo_uidlist2)" by (rule demo_init_second)
  have f: "fd demo_ctx_open2 \<noteq> - 1" by (simp add: demo_ctx_open2_def)
  have "calls (world_after demo_commit2)
          = calls demo_world2 @ concat (map (move_calls demo_ctx2) (files demo_ctx2))"
    using commit_links_in_list_order [of demo_api demo_ctx2 demo_world2 demo_uidlist2
        demo_commit2] c r by blast
  then have k: "calls (world_after demo_commit2)
       = calls demo_world2 @ [Link ''/mbox/tmp/msg1'' ''/mbox/new/msg1'', Unlink ''/mbox/tmp/msg1'',
                              Link ''/mbox/tmp/msg0'' ''/mbox/new/msg0'', Unlink ''/mbox/tmp/msg0'']"
    by (simp add: demo_ctx2_def move_calls_def dest_path_def)
  have "files demo_ctx_open2 \<noteq> [] \<and> tl (files demo_ctx_open2) = files demo_ctx1"
    using commit_links_in_list_order [where api = demo_api and env = Map.empty
        and ibox = demo_ibox and c = demo_ctx1 and flags = 0 and recv_date = 600
        and inp = "\<lparr>unread = ''World''\<rparr>" and st = "(demo_world1, demo_uidlist1)"
        and ctx' = demo_ctx_open2 and w' = demo_world_open2 and u' = demo_uidlist2] i f
    by blast
  then show ?thesis using c r k i f by blast
qed

text \<open>
  The claim as the specification states it fails: \<open>msg0\<close> is saved first and \<open>msg1\<close>
  second in one transaction, and the commit links \<open>msg1\<close> first; the sample UID list
  receives the names in that order too.
\<close>

theorem commit_link_order_counterexample:
  "save_message demo_api Map.empty demo_ibox None 0 500 \<lparr>unread = ''Hello''\<rparr>
     (demo_world, demo_uidlist) = Inr (0, demo_ctx1, demo_world1, demo_uidlist1)
   \<and> map basename (files demo_ctx1) = [''msg0'']
   \<and> save_message demo_api Map.empty demo_ibox (Some demo_ctx1) 0 600 \<lparr>unread = ''World''\<rparr>
        (demo_world1, demo_uidlist1) = Inr (0, demo_ctx2, demo_world2, demo_uidlist2)
   \<and> maildir_transaction_save_commit demo_api demo_ctx2 (demo_world2, demo_uidlist2)
        = Inr demo_commit2
   \<and> ret demo_commit2 = 1
   \<and> drop (length (calls demo_world2)) (calls (world_after demo_commit2))
       = [Link ''/mbox/tmp/msg1'' ''/mbox/new/msg1'', Unlink ''/mbox/tmp/msg1'',
          Link ''/mbox/tmp/msg0'' ''/mbox/new/msg0'', Unlink ''/mbox/tmp/msg0'']
   \<and> demo_session (state_after demo_commit2) = [''msg1'', ''msg0'']"
proof -
  have "map basename (files demo_ctx1) = [''msg0'']" by (simp add: demo_ctx1_def)
  moreover have "ret demo_commit2 = 1" by (simp add: demo_commit2_def)
  moreover have "drop (length (calls demo_world2)) (calls (world_after demo_commit2))
       = [Link ''/mbox/tmp/msg1'' ''/mbox/new/msg1'', Unlink ''/mbox/tmp/msg1'',
          Link ''/mbox/tmp/msg0'' ''/mbox/new/msg0'', Unlink ''/mbox/tmp/msg0'']"
    by (simp add: demo_commit2_def)
  moreover have "demo_session (state_after demo_commit2) = [''msg1'', ''msg0'']"
    by (simp add: demo_commit2_def)
  ultimately show ?thesis using demo_save_first demo_save_second demo_commit_two by blast
qed

subsection \<open>The UID range of a commit\<close>

text \<open>
  Claim C2, as the code has it. After a successful commit \<open>first_uid\<close> is the next UID
  that the UID list gave once it was locked and the index synced, and the next UID of
  the UID list after the commit is \<open>last_uid\<close> itself, the value that
  \<open>mail_index_append_assign_uids\<close> stored: this is what the assertion at the end of the
  commit demands.
\<close>

theorem commit_uid_range:
  "maildir_transaction_save_commit api ctx (w, u) = Inr r \<Longrightarrow> ret r \<noteq> - 1 \<Longrightarrow>
     \<exists>first_uid last_uid. uids r = Some (first_uid, last_uid)
       \<and> first_uid = maildir_uidlist_get_next_uid api (state_under_lock api u)
       \<and> maildir_uidlist_get_next_uid api (state_after r) = last_uid"
  using commit_success(1) [of api ctx w u r] by simp

theorem commit_uid_range_witness:
  "maildir_transaction_save_commit demo_api demo_ctx1 (demo_world1, demo_uidlist1)
     = Inr demo_commit1
   \<and> ret demo_commit1 \<noteq> - 1
   \<and> uids demo_commit1 = Some (1, 2)
   \<and> maildir_uidlist_get_next_uid demo_api (state_under_lock demo_api demo_uidlist1) = 1
   \<and> maildir_uidlist_get_next_uid demo_api (state_after demo_commit1) = 2"
proof -
  have c: "maildir_transaction_save_commit demo_api demo_ctx1 (demo_world1, demo_uidlist1)
             = Inr demo_commit1" by (rule demo_commit_one)
  have r: "ret demo_commit1 \<noteq> - 1" by (simp add: demo_commit1_def)
  have v: "uids demo_commit1 = Some (1, 2)" by (simp add: demo_commit1_def)
  obtain first_uid last_uid where "uids demo_commit1 = Some (first_uid, last_uid)"
    and "first_uid = maildir_uidlist_get_next_uid demo_api (state_under_lock demo_api demo_uidlist1)"
    and "maildir_uidlist_get_next_uid demo_api (state_after demo_commit1) = last_uid"
    using commit_uid_range [OF c r] by blast
  then show ?thesis using c r v by simp
qed

text \<open>
  The claim as the specification states it fails: one message is committed with success,
  \<open>last_uid\<close> is 2 and the next UID of the UID list afterwards is 2, not \<open>last_uid + 1\<close>.
\<close>

theorem commit_next_uid_counterexample:
  "maildir_transaction_save_commit demo_api demo_ctx1 (demo_world1, demo_uidlist1)
     = Inr demo_commit1
   \<and> ret demo_commit1 = 1
   \<and> length (files demo_ctx1) = 1
   \<and> uids demo_commit1 = Some (1, 2)
   \<and> maildir_uidlist_get_next_uid demo_api (state_after demo_commit1) = 2
   \<and> maildir_uidlist_get_next_uid demo_api (state_after demo_commit1)
       \<noteq> snd (the (uids demo_commit1)) + 1"
  using demo_commit_one
  by (simp add: demo_commit1_def demo_ctx1_def demo_api_def)

subsection \<open>A failed save context\<close>

text \<open>
  Claim C3, as the code has it. Once \<open>failed\<close> is set, \<open>maildir_save_continue\<close> returns
  \<open>-1\<close> and leaves the context as it is. \<open>maildir_save_finish\<close> does so only when the
  descriptor is \<open>-1\<close> as well (the temporary file could not be created); with a
  descriptor still open it returns \<open>-1\<close> too, and leaves a context that is failed with
  descriptor \<open>-1\<close>, so that every later call is of the first kind.
\<close>

theorem failed_context_sticky:
  "(failed ctx \<longrightarrow> maildir_save_continue api ctx = Inr (- 1, ctx))
   \<and> (failed ctx \<and> fd ctx = - 1 \<longrightarrow>
        maildir_save_finish api want_mail_r ctx (w, u) = Inr (- 1, ctx, w))
   \<and> (failed ctx \<and> maildir_save_finish api want_mail_r ctx (w, u) = Inr (r, ctx', w') \<longrightarrow>
        r = - 1 \<and> failed ctx' \<and> fd ctx' = - 1)"
proof (intro conjI impI)
  assume "failed ctx"
  then show "maildir_save_continue api ctx = Inr (- 1, ctx)"
    by (simp add: maildir_save_continue_def)
next
  assume "failed ctx \<and> fd ctx = - 1"
  then show "maildir_save_finish api want_mail_r ctx (w, u) = Inr (- 1, ctx, w)"
    by (simp add: maildir_save_finish_def)
next
  assume h: "failed ctx \<and> maildir_save_finish api want_mail_r ctx (w, u) = Inr (r, ctx', w')"
  then have "r = - 1 \<and> failed ctx' \<and> fd ctx' = - 1"
    using finish_of_failed [of ctx api want_mail_r w u r ctx' w'] by blast
  then show "r = - 1" "failed ctx'" "fd ctx' = - 1" by simp_all
qed

theorem failed_context_sticky_witness:
  "failed demo_cleaned_ctx \<and> fd demo_cleaned_ctx = - 1
   \<and> maildir_save_continue demo_api demo_cleaned_ctx = Inr (- 1, demo_cleaned_ctx)
   \<and> maildir_save_finish demo_api False demo_cleaned_ctx (demo_cleaned_world, demo_uidlist1)
       = Inr (- 1, demo_cleaned_ctx, demo_cleaned_world)
   \<and> failed demo_failed_ctx
   \<and> maildir_save_finish full_disk_api False demo_failed_ctx (demo_world_open1, demo_uidlist1)
       = Inr (- 1, demo_cleaned_ctx, demo_cleaned_world)
   \<and> failed demo_cleaned_ctx \<and> fd demo_cleaned_ctx = - 1"
proof -
  have a: "failed demo_cleaned_ctx" and b: "fd demo_cleaned_ctx = - 1"
    by (simp_all add: demo_cleaned_ctx_def)
  have c: "failed demo_failed_ctx" by (simp add: demo_failed_ctx_def)
  have "maildir_save_continue demo_api demo_cleaned_ctx = Inr (- 1, demo_cleaned_ctx)"
    and "maildir_save_finish demo_api False demo_cleaned_ctx (demo_cleaned_world, demo_uidlist1)
       = Inr (- 1, demo_cleaned_ctx, demo_cleaned_world)"
    using failed_context_sticky [of demo_cleaned_ctx demo_api False demo_cleaned_world
        demo_uidlist1] a b by blast+
  moreover have "failed demo_cleaned_ctx \<and> fd demo_cleaned_ctx = - 1"
    using failed_context_sticky [of demo_failed_ctx full_disk_api False demo_world_open1
        demo_uidlist1 "- 1" demo_cleaned_ctx demo_cleaned_world] c demo_finish_failed
    by blast
  ultimately show ?thesis using a b c demo_finish_failed by blast
qed

text \<open>
  The claim as the specification states it fails for \<open>save_finish\<close>: the disk fills up
  during \<open>save_continue\<close>, which sets \<open>failed\<close>; the \<open>save_finish\<close> that follows closes
  the descriptor, unlinks the temporary file, drops the staged file from the list and
  sets the error message.
\<close>

theorem failed_finish_counterexample:
  "maildir_save_continue full_disk_api demo_ctx_open1 = Inr (- 1, demo_failed_ctx)
   \<and> failed demo_failed_ctx
   \<and> maildir_save_finish full_disk_api False demo_failed_ctx (demo_world_open1, demo_uidlist1)
       = Inr (- 1, demo_cleaned_ctx, demo_cleaned_world)
   \<and> demo_cleaned_ctx \<noteq> demo_failed_ctx
   \<and> fd demo_failed_ctx = 3 \<and> fd demo_cleaned_ctx = - 1
   \<and> files demo_failed_ctx \<noteq> [] \<and> files demo_cleaned_ctx = []
   \<and> names demo_world_open1 ''/mbox/tmp/msg0'' = Some 0
   \<and> names demo_cleaned_world ''/mbox/tmp/msg0'' = None
   \<and> calls demo_cleaned_world
       = calls demo_world_open1 @ [Utime ''/mbox/tmp/msg0'' 1000 500, Fsync 3, Close 3,
                                   Unlink ''/mbox/tmp/msg0'']"
  using demo_continue_full_disk demo_finish_failed
  by (simp add: demo_failed_ctx_def demo_cleaned_ctx_def demo_world_open1_def
      demo_cleaned_world_def)

subsection \<open>Destination directory of a saved message\<close>

text \<open>
  Claim C4, as the code has it. The flags of the message are the caller's flags with
  \<open>RECENT\<close> taken out and put back when the mailbox keeps the recent flag. The staged file
  has no \<open>dest\<close> exactly when the mailbox keeps the recent flag and the caller gave no flag
  other than \<open>RECENT\<close>; otherwise \<open>dest\<close> is the flag-encoded filename. A file without
  \<open>dest\<close> is linked into \<open>new/\<close> under its basename and a file with \<open>dest\<close> into \<open>cur/\<close>
  under that name. A successful commit of a single staged file without \<open>dest\<close> makes this
  one link into \<open>new/\<close>, and its UID range starts at the next UID of the UID list.
\<close>

theorem save_init_destination:
  "(MAIL_RECENT api \<noteq> 0
      \<and> maildir_save_init api env ibox save_ctx flags recv_date inp st = Inr (ctx, w', u')
      \<and> fd ctx \<noteq> - 1 \<longrightarrow>
    (\<exists>mf rest. files ctx = mf # rest
       \<and> (dest mf = None \<longleftrightarrow> keep_recent ibox \<and> flags AND NOT (MAIL_RECENT api) = 0)
       \<and> (dest mf \<noteq> None \<longrightarrow>
            dest mf = Some (maildir_filename_set_flags api (basename mf)
                             ((flags AND NOT (MAIL_RECENT api))
                                OR (if keep_recent ibox then MAIL_RECENT api else 0))))))
   \<and> (dest mf0 = None \<longrightarrow> dest_path c mf0 = newdir c @ ''/'' @ basename mf0)
   \<and> (dest mf0 = Some d \<longrightarrow> dest_path c mf0 = curdir c @ ''/'' @ d)
   \<and> calls (snd (maildir_file_move w c (basename mf0) (dest mf0)))
       = calls w @ [Link (tmpdir c @ ''/'' @ basename mf0) (dest_path c mf0),
                    Unlink (tmpdir c @ ''/'' @ basename mf0)]
   \<and> (maildir_transaction_save_commit api c (w, u) = Inr r \<and> ret r \<noteq> - 1
        \<and> files c = [mf0] \<and> dest mf0 = None \<longrightarrow>
      calls (world_after r)
        = calls w @ [Link (tmpdir c @ ''/'' @ basename mf0) (newdir c @ ''/'' @ basename mf0),
                     Unlink (tmpdir c @ ''/'' @ basename mf0)]
      \<and> (\<exists>last_uid. uids r
            = Some (maildir_uidlist_get_next_uid api (state_under_lock api u), last_uid)))"
proof (intro conjI impI)
  assume h: "MAIL_RECENT api \<noteq> 0
      \<and> maildir_save_init api env ibox save_ctx flags recv_date inp st = Inr (ctx, w', u')
      \<and> fd ctx \<noteq> - 1"
  let ?mail_flags = "(flags AND NOT (MAIL_RECENT api))
                       OR (if keep_recent ibox then MAIL_RECENT api else 0)"
  obtain mf where fs: "files ctx = mf # files (case save_ctx of
                                        None \<Rightarrow> maildir_transaction_save_init env ibox
                                      | Some c \<Rightarrow> c)"
    and d: "dest mf = (if ?mail_flags = MAIL_RECENT api then None
                       else Some (maildir_filename_set_flags api (basename mf) ?mail_flags))"
    using save_init_files [of api env ibox save_ctx flags recv_date inp st ctx w' u'] h
    by blast
  have iff: "(?mail_flags = MAIL_RECENT api)
               \<longleftrightarrow> (keep_recent ibox \<and> flags AND NOT (MAIL_RECENT api) = 0)"
    using recent_only_iff [of "MAIL_RECENT api" flags "keep_recent ibox"] h by blast
  have A: "(dest mf = None \<longleftrightarrow> keep_recent ibox \<and> flags AND NOT (MAIL_RECENT api) = 0)"
    using d iff by (simp split: if_splits)
  have B: "dest mf \<noteq> None \<longrightarrow>
            dest mf = Some (maildir_filename_set_flags api (basename mf) ?mail_flags)"
    using d by (simp split: if_splits)
  show "\<exists>mf rest. files ctx = mf # rest
       \<and> (dest mf = None \<longleftrightarrow> keep_recent ibox \<and> flags AND NOT (MAIL_RECENT api) = 0)
       \<and> (dest mf \<noteq> None \<longrightarrow>
            dest mf = Some (maildir_filename_set_flags api (basename mf) ?mail_flags))"
    by (intro exI conjI) (rule fs, rule A, rule B)
next
  assume "dest mf0 = None"
  then show "dest_path c mf0 = newdir c @ ''/'' @ basename mf0" by (simp add: dest_path_def)
next
  assume "dest mf0 = Some d"
  then show "dest_path c mf0 = curdir c @ ''/'' @ d" by (simp add: dest_path_def)
next
  show "calls (snd (maildir_file_move w c (basename mf0) (dest mf0)))
       = calls w @ [Link (tmpdir c @ ''/'' @ basename mf0) (dest_path c mf0),
                    Unlink (tmpdir c @ ''/'' @ basename mf0)]"
    using file_move_calls [of w c mf0] by (simp add: move_calls_def)
next
  assume h: "maildir_transaction_save_commit api c (w, u) = Inr r \<and> ret r \<noteq> - 1
        \<and> files c = [mf0] \<and> dest mf0 = None"
  then have a: "maildir_transaction_save_commit api c (w, u) = Inr r" and b: "ret r \<noteq> - 1"
    by simp_all
  show "calls (world_after r)
        = calls w @ [Link (tmpdir c @ ''/'' @ basename mf0) (newdir c @ ''/'' @ basename mf0),
                     Unlink (tmpdir c @ ''/'' @ basename mf0)]"
    using commit_success(2) [OF a b] h by (simp add: move_calls_def dest_path_def)
  show "\<exists>last_uid. uids r
            = Some (maildir_uidlist_get_next_uid api (state_under_lock api u), last_uid)"
    using commit_success(1) [OF a b] by blast
qed

theorem save_init_destination_witness:
  "MAIL_RECENT demo_api \<noteq> 0
   \<and> maildir_save_init demo_api Map.empty demo_ibox None 0 500 \<lparr>unread = ''Hello''\<rparr>
        (demo_world, demo_uidlist) = Inr (demo_ctx_open1, demo_world_open1, demo_uidlist1)
   \<and> fd demo_ctx_open1 \<noteq> - 1
   \<and> files demo_ctx_open1 = [\<lparr>basename = ''msg0'', dest = None\<rparr>]
   \<and> keep_recent demo_ibox \<and> (0 :: uint32) AND NOT (MAIL_RECENT demo_api) = 0
   \<and> maildir_save_init demo_api Map.empty plain_ibox None 32 500 \<lparr>unread = ''Hello''\<rparr>
        (demo_world, demo_uidlist)
      = Inr (demo_ctx_open1\<lparr>files := [\<lparr>basename = ''msg0'', dest = Some ''msg0:2,''\<rparr>]\<rparr>,
             demo_world_open1, demo_uidlist1)
   \<and> dest_path demo_ctx1 \<lparr>basename = ''msg0'', dest = None\<rparr> = ''/mbox/new/msg0''
   \<and> dest_path demo_ctx1 \<lparr>basename = ''msg0'', dest = Some ''msg0:2,''\<rparr> = ''/mbox/cur/msg0:2,''
   \<and> maildir_transaction_save_commit demo_api demo_ctx1 (demo_world1, demo_uidlist1)
        = Inr demo_commit1
   \<and> ret demo_commit1 \<noteq> - 1
   \<and> files demo_ctx1 = [\<lparr>basename = ''msg0'', dest = None\<rparr>]
   \<and> calls (world_after demo_commit1)
       = calls demo_world1 @ [Link ''/mbox/tmp/msg0'' ''/mbox/new/msg0'', Unlink ''/mbox/tmp/msg0'']
   \<and> (\<exists>last_uid. uids demo_commit1 = Some (1, last_uid))"
proof -
  let ?mf = "\<lparr>basename = ''msg0'', dest = None\<rparr>"
  let ?mc = "\<lparr>basename = ''msg0'', dest = Some ''msg0:2,''\<rparr>"
  have r: "MAIL_RECENT demo_api \<noteq> 0" by (simp add: demo_api_def)
  have f: "fd demo_ctx_open1 \<noteq> - 1" by (simp add: demo_ctx_open1_def)
  have fl: "files demo_ctx_open1 = [?mf]" by (simp add: demo_ctx_open1_def)
  have k: "keep_recent demo_ibox" by (simp add: demo_ibox_def)
  have z: "(0 :: uint32) AND NOT (MAIL_RECENT demo_api) = 0" by simp
  have c: "maildir_transaction_save_commit demo_api demo_ctx1 (demo_world1, demo_uidlist1)
             = Inr demo_commit1" by (rule demo_commit_one)
  have rr: "ret demo_commit1 \<noteq> - 1" by (simp add: demo_commit1_def)
  have f1: "files demo_ctx1 = [?mf]" by (simp add: demo_ctx1_def)
  have nd: "dest ?mf = None" by simp
  have sd: "dest ?mc = Some ''msg0:2,''" by simp
  have nu: "maildir_uidlist_get_next_uid demo_api (state_under_lock demo_api demo_uidlist1) = 1"
    by (simp add: demo_api_def state_under_lock_def demo_uidlist1_def)
  note t = save_init_destination [where api = demo_api and env = Map.empty and ibox = demo_ibox
      and save_ctx = None and flags = 0 and recv_date = 500 and inp = "\<lparr>unread = ''Hello''\<rparr>"
      and st = "(demo_world, demo_uidlist)" and ctx = demo_ctx_open1 and w' = demo_world_open1
      and u' = demo_uidlist1 and ?mf0.0 = "?mf" and c = demo_ctx1 and w = demo_world1
      and u = demo_uidlist1 and r = demo_commit1 and d = "''msg0:2,''"]
  note t2 = save_init_destination [where api = demo_api and env = Map.empty and ibox = demo_ibox
      and save_ctx = None and flags = 0 and recv_date = 500 and inp = "\<lparr>unread = ''Hello''\<rparr>"
      and st = "(demo_world, demo_uidlist)" and ctx = demo_ctx_open1 and w' = demo_world_open1
      and u' = demo_uidlist1 and ?mf0.0 = "?mc" and c = demo_ctx1 and w = demo_world1
      and u = demo_uidlist1 and r = demo_commit1 and d = "''msg0:2,''"]
  have p1: "dest_path demo_ctx1 ?mf = ''/mbox/new/msg0''"
    using t nd by (simp add: demo_ctx1_def)
  have p2: "dest_path demo_ctx1 ?mc = ''/mbox/cur/msg0:2,''"
    using t2 sd by (simp add: demo_ctx1_def)
  have cm: "calls (world_after demo_commit1)
       = calls demo_world1 @ [Link ''/mbox/tmp/msg0'' ''/mbox/new/msg0'', Unlink ''/mbox/tmp/msg0'']
     \<and> (\<exists>last_uid. uids demo_commit1 = Some (1, last_uid))"
    using t c rr f1 nd nu by (simp add: demo_ctx1_def)
  show ?thesis
    using r demo_init_first f fl k z demo_init_recent_plain p1 p2 c rr f1 cm by blast
qed

text \<open>
  The claim as the specification states it fails in both directions. With the caller's
  flags \<open>RECENT\<close> only (\<open>32\<close>, the value of \<open>MAIL_RECENT\<close> in the sample environment) and
  a mailbox that does not keep the recent flag, \<open>dest\<close> is set and the destination is
  \<open>cur/\<close>; with empty caller's flags, which are not \<open>RECENT\<close> only, and a mailbox that
  keeps the recent flag, \<open>dest\<close> is unset.
\<close>

theorem save_init_destination_counterexample:
  "MAIL_RECENT demo_api = 32
   \<and> maildir_save_init demo_api Map.empty plain_ibox None 32 500 \<lparr>unread = ''Hello''\<rparr>
        (demo_world, demo_uidlist)
      = Inr (demo_ctx_open1\<lparr>files := [\<lparr>basename = ''msg0'', dest = Some ''msg0:2,''\<rparr>]\<rparr>,
             demo_world_open1, demo_uidlist1)
   \<and> dest_path demo_ctx_open1 \<lparr>basename = ''msg0'', dest = Some ''msg0:2,''\<rparr>
       = ''/mbox/cur/msg0:2,''
   \<and> (0 :: uint32) \<noteq> MAIL_RECENT demo_api
   \<and> maildir_save_init demo_api Map.empty demo_ibox None 0 500 \<lparr>unread = ''Hello''\<rparr>
        (demo_world, demo_uidlist) = Inr (demo_ctx_open1, demo_world_open1, demo_uidlist1)
   \<and> map dest (files demo_ctx_open1) = [None]"
  using demo_init_recent_plain demo_init_first
  by (simp add: demo_api_def demo_ctx_open1_def dest_path_def)

subsection \<open>Line-ending conversion\<close>

text \<open>
  Claim C9, as the code has it. A new save context converts LF to CRLF exactly when
  \<open>MAIL_SAVE_CRLF\<close> is set in the environment, whatever its value, the empty one
  included. The variable is read when the context is made: the output stream of the first
  message follows it, and the output stream of a later message in the same context
  follows the context.
\<close>

theorem save_crlf_when_set:
  "save_crlf (maildir_transaction_save_init env ibox) = (env ''MAIL_SAVE_CRLF'' \<noteq> None)
   \<and> (maildir_save_init api env ibox None flags recv_date inp st = Inr (ctx, w', u')
        \<and> fd ctx \<noteq> - 1
      \<longrightarrow> (\<exists>out. output_stream ctx = Some out \<and> crlf out = (env ''MAIL_SAVE_CRLF'' \<noteq> None)))
   \<and> (maildir_save_init api env ibox (Some c) flags recv_date inp st = Inr (ctx, w', u')
        \<and> fd ctx \<noteq> - 1
      \<longrightarrow> (\<exists>out. output_stream ctx = Some out \<and> crlf out = save_crlf c))"
  by (auto simp: maildir_transaction_save_init_def maildir_save_init_def Let_def
      split: prod.splits if_splits)

theorem save_crlf_when_set_witness:
  "maildir_save_init demo_api [''MAIL_SAVE_CRLF'' \<mapsto> ''1''] demo_ibox None 0 500
     \<lparr>unread = ''Hello''\<rparr> (demo_world, demo_uidlist)
   = Inr (demo_ctx_open1\<lparr>output_stream := Some \<lparr>crlf = True, ostream_fd = 3,
                                                    stream_errno = None\<rparr>,
                          save_crlf := True\<rparr>,
          demo_world_open1, demo_uidlist1)
   \<and> fd (demo_ctx_open1\<lparr>output_stream := Some \<lparr>crlf = True, ostream_fd = 3,
                                                    stream_errno = None\<rparr>,
                          save_crlf := True\<rparr>) \<noteq> - 1
   \<and> [''MAIL_SAVE_CRLF'' \<mapsto> ''1''] ''MAIL_SAVE_CRLF'' \<noteq> None
   \<and> maildir_save_init demo_api [''MAIL_SAVE_CRLF'' \<mapsto> ''1''] demo_ibox (Some demo_ctx1) 0 600
        \<lparr>unread = ''World''\<rparr> (demo_world1, demo_uidlist1)
      = Inr (demo_ctx_open2, demo_world_open2, demo_uidlist2)
   \<and> fd demo_ctx_open2 \<noteq> - 1
   \<and> (\<exists>out. output_stream demo_ctx_open2 = Some out \<and> crlf out = save_crlf demo_ctx1)
   \<and> \<not> save_crlf demo_ctx1"
proof -
  let ?env = "[''MAIL_SAVE_CRLF'' \<mapsto> ''1'']"
  let ?c = "demo_ctx_open1\<lparr>output_stream := Some \<lparr>crlf = True, ostream_fd = 3,
                                                    stream_errno = None\<rparr>,
                          save_crlf := True\<rparr>"
  have i1: "maildir_save_init demo_api ?env demo_ibox None 0 500
     \<lparr>unread = ''Hello''\<rparr> (demo_world, demo_uidlist) = Inr (?c, demo_world_open1, demo_uidlist1)"
    by (simp add: demo_simps save_simps)
  have f1: "fd ?c \<noteq> - 1" by (simp add: demo_ctx_open1_def)
  have i2: "maildir_save_init demo_api ?env demo_ibox (Some demo_ctx1) 0 600
        \<lparr>unread = ''World''\<rparr> (demo_world1, demo_uidlist1)
      = Inr (demo_ctx_open2, demo_world_open2, demo_uidlist2)"
    by (simp add: demo_simps save_simps)
  have f2: "fd demo_ctx_open2 \<noteq> - 1" by (simp add: demo_ctx_open2_def)
  have e: "?env ''MAIL_SAVE_CRLF'' \<noteq> None" by simp
  have n: "\<not> save_crlf demo_ctx1" by (simp add: demo_ctx1_def)
  have "\<exists>out. output_stream demo_ctx_open2 = Some out \<and> crlf out = save_crlf demo_ctx1"
    using save_crlf_when_set [where api = demo_api and env = ?env and ibox = demo_ibox
        and c = demo_ctx1 and flags = 0 and recv_date = 600 and inp = "\<lparr>unread = ''World''\<rparr>"
        and st = "(demo_world1, demo_uidlist1)" and ctx = demo_ctx_open2
        and w' = demo_world_open2 and u' = demo_uidlist2] i2 f2
    by blast
  then show ?thesis using i1 f1 e i2 f2 n by blast
qed

text \<open>
  The claim as the specification states it fails: with \<open>MAIL_SAVE_CRLF\<close> set to the empty
  value the conversion is enabled.
\<close>

theorem save_crlf_counterexample:
  "[''MAIL_SAVE_CRLF'' \<mapsto> ''''] ''MAIL_SAVE_CRLF'' = Some ''''
   \<and> save_crlf (maildir_transaction_save_init [''MAIL_SAVE_CRLF'' \<mapsto> ''''] demo_ibox) = True
   \<and> maildir_save_init demo_api [''MAIL_SAVE_CRLF'' \<mapsto> ''''] demo_ibox None 0 500
        \<lparr>unread = ''Hello''\<rparr> (demo_world, demo_uidlist)
      = Inr (demo_ctx_open1\<lparr>output_stream := Some \<lparr>crlf = True, ostream_fd = 3,
                                                       stream_errno = None\<rparr>,
                             save_crlf := True\<rparr>,
             demo_world_open1, demo_uidlist1)"
  using demo_init_crlf by (simp add: maildir_transaction_save_init_def)

section \<open>Properties of the authentication connections\<close>

subsection \<open>Choice of the connection\<close>




lemma store_conn_fields:
  "sent (store_conn s c x) = sent s"
  "request_heap (store_conn s c x) = request_heap s"
  "request_id_counter (store_conn s c x) = request_id_counter s"
  "callback_log (store_conn s c x) = callback_log s"
  "available_auth_mechs (store_conn s c x) = available_auth_mechs s"
  "auth_waiting_handshake_count (store_conn s c x) = auth_waiting_handshake_count s"
  "next_addr (store_conn s c x) = next_addr s"
  "auth_reconnect (store_conn s c x) = auth_reconnect s"
  by (simp_all add: store_conn_def)







subsection \<open>Destroying a connection\<close>







lemma unlink_conn_subset: "set (unlink_conn cs c) \<subseteq> set cs"
  by (induction cs) (auto split: if_splits)

lemma unlink_conn_absent:
  "distinct (map fst cs) \<Longrightarrow> c \<notin> fst ` set (unlink_conn cs c)"
proof (induction cs)
  case Nil
  then show ?case by simp
next
  case (Cons n cs)
  obtain c' x' where n: "n = (c', x')" by (cases n)
  show ?case
  proof (cases "c' = c")
    case True
    then show ?thesis using Cons.prems n by (auto simp: image_iff)
  next
    case False
    then show ?thesis using Cons n by auto
  qed
qed

lemma map_of_absent: "c \<notin> fst ` set cs \<Longrightarrow> map_of cs c = None"
  by (simp add: map_of_eq_None_iff)

lemma destroy_live_connection:
  assumes x: "map_of (auth_connections s) c = Some x" and live: "conn_fd x \<noteq> - 1"
    and dist: "distinct (map fst (auth_connections s))"
  shows "\<exists>s'. auth_connection_destroy s c = Inr s'
           \<and> c \<notin> fst ` set (auth_connections s')
           \<and> set (auth_connections s') \<subseteq> set (auth_connections s)
           \<and> available_auth_mechs s' = available_auth_mechs s
           \<and> callback_log s' = callback_log s @ map (\<lambda>kv. (snd kv, None)) (conn_requests x)
           \<and> (\<forall>x'. lookup_conn s' c = Some x' \<longrightarrow>
                 conn_handshake_received x' = conn_handshake_received x
                 \<and> conn_available_auth_mechs x' = conn_available_auth_mechs x
                 \<and> conn_fd x' = - 1)"
proof -
  let ?cs = "unlink_conn (auth_connections s) c"
  have gone: "c \<notin> fst ` set ?cs" using dist by (rule unlink_conn_absent)
  then have none: "map_of ?cs c = None" by (rule map_of_absent)
  have sub: "set ?cs \<subseteq> set (auth_connections s)" by (rule unlink_conn_subset)
  have gone': "c \<notin> fst ` set (filter (\<lambda>n. fst n \<noteq> c) ?cs)" by auto
  have sub': "set (filter (\<lambda>n. fst n \<noteq> c) ?cs) \<subseteq> set (auth_connections s)"
    using sub by auto
  have nofilt: "map_of (filter (\<lambda>n. fst n \<noteq> c) (detached s)) c = None"
    by (simp add: map_of_eq_None_iff image_iff)
  have nofilt2: "map_of (filter (\<lambda>n. fst n \<noteq> c) ?cs) c = None"
    by (simp add: map_of_eq_None_iff image_iff)
  show ?thesis
  proof (cases "conn_refcount x - 1 > 0")
    case True
    then show ?thesis
      using x live none gone sub
      by (simp add: auth_connection_destroy_def auth_connection_unref_def lookup_conn_def
          store_conn_def Let_def)
  next
    case False
    then show ?thesis
      using x live none gone' sub' nofilt nofilt2
      by (simp add: auth_connection_destroy_def auth_connection_unref_def lookup_conn_def
          store_conn_def Let_def)
  qed
qed

subsection \<open>A request whose frame cannot be written\<close>





subsection \<open>The sample login process, evaluated\<close>

lemmas auth_demo_simps =
  auth_env1_def auth_env0_def auth_env_big_def auth_start_def worker_waiting_def
  worker_ready_def auth_waiting_def auth_ready_def auth_gone_def

lemmas auth_simps =
  auth_connection_init_def auth_connect_missing_def connect_entry_def auth_connection_new_def
  auth_handle_handshake_def auth_connection_destroy_def auth_connection_unref_def
  lookup_conn_def store_conn_def update_available_auth_mechs_def free_requests_def
  auth_init_request_def auth_connection_get_def o_stream_have_space_def
  hash_insert_def hash_remove_def hash_lookup_def Let_def








subsection \<open>A handshake with pid 0\<close>

text \<open>
  Claim C10. When the handshake of a worker carries pid 0, the connection it arrived on
  (a connection of the registry whose descriptor is open) is destroyed: it is taken off
  the registry, the process-wide set of mechanisms is left as it was, the callback of
  every pending request of the connection is called with the null reply, and the
  connection object, where it lives on, has \<open>handshake_received\<close> and its mechanisms as
  before and the descriptor \<open>-1\<close>.
\<close>

theorem handshake_pid_zero_destroys:
  assumes "hs_pid handshake = 0"
    and "map_of (auth_connections s) c = Some x" and "conn_fd x \<noteq> - 1"
    and "distinct (map fst (auth_connections s))"
  shows "\<exists>s'. auth_handle_handshake s c handshake = Inr s'
           \<and> c \<notin> fst ` set (auth_connections s')
           \<and> available_auth_mechs s' = available_auth_mechs s
           \<and> callback_log s' = callback_log s @ map (\<lambda>kv. (snd kv, None)) (conn_requests x)
           \<and> (\<forall>x'. lookup_conn s' c = Some x' \<longrightarrow>
                 conn_handshake_received x' = conn_handshake_received x
                 \<and> conn_available_auth_mechs x' = conn_available_auth_mechs x
                 \<and> conn_fd x' = - 1)"
proof -
  have "auth_handle_handshake s c handshake = auth_connection_destroy s c"
    using assms(1) by (simp add: auth_handle_handshake_def)
  then show ?thesis
    using destroy_live_connection [OF assms(2,3,4)] by auto
qed

theorem handshake_pid_zero_destroys_witness:
  "hs_pid \<lparr>hs_pid = 0, hs_auth_mechanisms = 3\<rparr> = 0
   \<and> map_of (auth_connections auth_pending) 0 = Some worker_pending
   \<and> conn_fd worker_pending \<noteq> - 1
   \<and> distinct (map fst (auth_connections auth_pending))
   \<and> (\<exists>s'. auth_handle_handshake auth_pending 0 \<lparr>hs_pid = 0, hs_auth_mechanisms = 3\<rparr> = Inr s'
         \<and> auth_connections s' = []
         \<and> available_auth_mechs s' = 0
         \<and> callback_log s' = [(1, None)]
         \<and> lookup_conn s' 0 = Some (worker_pending\<lparr>conn_fd := - 1, conn_refcount := 1\<rparr>))"
proof -
  let ?hs = "\<lparr>hs_pid = 0, hs_auth_mechanisms = 3\<rparr>"
  have h1: "hs_pid ?hs = 0" by simp
  have h2: "map_of (auth_connections auth_pending) 0 = Some worker_pending"
    by (simp add: auth_pending_def)
  have h3: "conn_fd worker_pending \<noteq> - 1" by (simp add: worker_pending_def auth_demo_simps)
  have h4: "distinct (map fst (auth_connections auth_pending))" by (simp add: auth_pending_def)
  obtain s' where run: "auth_handle_handshake auth_pending 0 ?hs = Inr s'"
    and "0 \<notin> fst ` set (auth_connections s')"
    and m: "available_auth_mechs s' = available_auth_mechs auth_pending"
    and l: "callback_log s' = callback_log auth_pending
              @ map (\<lambda>kv. (snd kv, None)) (conn_requests worker_pending)"
    using handshake_pid_zero_destroys [OF h1 h2 h3 h4] by blast
  have ev: "auth_handle_handshake auth_pending 0 ?hs
              = Inr (auth_pending\<lparr>auth_connections := [],
                                  detached := [(0, worker_pending\<lparr>conn_fd := - 1,
                                                                 conn_refcount := 1\<rparr>)],
                                  auth_waiting_handshake_count := 0,
                                  callback_log := [(1, None)]\<rparr>)"
    by (simp add: auth_pending_def worker_pending_def auth_demo_simps auth_simps)
  have "auth_connections s' = []" and "lookup_conn s' 0
          = Some (worker_pending\<lparr>conn_fd := - 1, conn_refcount := 1\<rparr>)"
    using run ev by (auto simp: lookup_conn_def)
  moreover have "available_auth_mechs s' = 0" using m by (simp add: auth_pending_def auth_demo_simps)
  moreover have "callback_log s' = [(1, None)]"
    using l by (simp add: auth_pending_def worker_pending_def auth_demo_simps)
  ultimately show ?thesis using h1 h2 h3 h4 run by blast
qed

subsection \<open>Request ids\<close>

lemma heap_shrinks_refl: "heap_shrinks h h"
  by (simp add: heap_shrinks_def)

lemma heap_shrinks_trans: "heap_shrinks h2 h1 \<Longrightarrow> heap_shrinks h1 h \<Longrightarrow> heap_shrinks h2 h"
  by (simp add: heap_shrinks_def)

lemma heap_shrinks_free: "heap_shrinks (free_requests h table) h"
  by (simp add: heap_shrinks_def free_requests_def)

lemma heap_shrinks_remove: "heap_shrinks (h(a := None)) h"
  by (simp add: heap_shrinks_def)

lemma unref_effect:
  assumes "auth_connection_unref s c = Inr s'"
  shows "heap_shrinks (request_heap s') (request_heap s)
         \<and> request_id_counter s' = request_id_counter s"
  using assms
  by (auto simp: auth_connection_unref_def store_conn_fields heap_shrinks_refl heap_shrinks_free
      split: option.splits if_splits)

lemma destroy_effect:
  assumes "auth_connection_destroy s c = Inr s'"
  shows "heap_shrinks (request_heap s') (request_heap s)
         \<and> request_id_counter s' = request_id_counter s"
proof (cases "lookup_conn s c")
  case None
  then show ?thesis using assms by (simp add: auth_connection_destroy_def)
next
  case (Some x)
  show ?thesis
  proof (cases "conn_fd x = - 1")
    case True
    then show ?thesis using assms Some
      by (simp add: auth_connection_destroy_def heap_shrinks_refl)
  next
    case False
    define s4 where "s4 =
      (let in_list = (map_of (auth_connections s) c \<noteq> None);
           s1 = (if in_list
                 then s\<lparr>auth_connections := unlink_conn (auth_connections s) c,
                        detached := (c, x) # detached s\<rparr>
                 else s);
           s2 = (if \<not> conn_handshake_received x
                 then s1\<lparr>auth_waiting_handshake_count := auth_waiting_handshake_count s1 - 1\<rparr>
                 else s1);
           s3 = store_conn s2 c (x\<lparr>conn_fd := - 1\<rparr>)
       in s3\<lparr>callback_log := callback_log s3 @ map (\<lambda>kv. (snd kv, None)) (conn_requests x)\<rparr>)"
    have same: "request_heap s4 = request_heap s \<and> request_id_counter s4 = request_id_counter s"
      by (simp add: s4_def Let_def store_conn_fields)
    have "auth_connection_unref s4 c = Inr s'"
      using assms Some False by (simp add: auth_connection_destroy_def s4_def Let_def)
    then show ?thesis using unref_effect [of s4 c s'] same by simp
  qed
qed

lemma new_effect:
  assumes "auth_connection_new env s p = Inr (r, s')"
  shows "heap_shrinks (request_heap s') (request_heap s)
         \<and> request_id_counter s' = request_id_counter s"
proof (cases "net_connect_unix env p = - 1")
  case True
  then show ?thesis using assms
    by (auto simp: auth_connection_new_def Let_def heap_shrinks_refl)
next
  case False
  show ?thesis
  proof (cases "send_fails env (net_connect_unix env p)")
    case nf: False
    then show ?thesis using assms False
      by (auto simp: auth_connection_new_def Let_def heap_shrinks_refl)
  next
    case True
    let ?x = "\<lparr>conn_refcount = 1, conn_path = p, conn_fd = net_connect_unix env p,
               conn_out_space = MAX_OUTBUF_SIZE env, conn_requests = [], conn_pid = 0,
               conn_available_auth_mechs = 0, conn_handshake_received = False,
               conn_reply_received = False\<rparr>"
    let ?s1 = "s\<lparr>next_addr := next_addr s + 1,
                  auth_connections := (next_addr s, ?x) # auth_connections s,
                  auth_waiting_handshake_count := auth_waiting_handshake_count s + 1\<rparr>"
    have "auth_connection_destroy ?s1 (next_addr s) = Inr s'"
      using assms False True
      by (simp add: auth_connection_new_def Let_def split: sum.splits)
    then show ?thesis using destroy_effect [of ?s1 "next_addr s" s'] by simp
  qed
qed

lemma connect_entry_effect:
  assumes "connect_entry env s ent = Inr s'"
  shows "heap_shrinks (request_heap s') (request_heap s)
         \<and> request_id_counter s' = request_id_counter s"
proof -
  obtain d_name is_sock where e: "ent = (d_name, is_sock)" by (cases ent)
  show ?thesis
    using assms e new_effect [of env s d_name]
    by (auto simp: connect_entry_def heap_shrinks_refl
        split: if_splits sum.splits option.splits prod.splits)
qed

lemma connect_entries_effect:
  "connect_entries env s ents = Inr s' \<Longrightarrow>
     heap_shrinks (request_heap s') (request_heap s)
     \<and> request_id_counter s' = request_id_counter s"
proof (induction ents arbitrary: s)
  case Nil
  then show ?case by (simp add: heap_shrinks_refl)
next
  case (Cons ent ents)
  then obtain s1 where a: "connect_entry env s ent = Inr s1"
    and b: "connect_entries env s1 ents = Inr s'"
    by (auto split: sum.splits)
  show ?case
    using connect_entry_effect [OF a] Cons.IH [OF b] heap_shrinks_trans by auto
qed

lemma after_rescan_effect:
  assumes "after_rescan env s = Inr s1"
  shows "heap_shrinks (request_heap s1) (request_heap s)
         \<and> request_id_counter s1 = request_id_counter s"
proof (cases "auth_reconnect s")
  case False
  then show ?thesis using assms by (auto simp: after_rescan_def heap_shrinks_refl)
next
  case True
  show ?thesis
  proof (cases "dir_entries env")
    case None
    then show ?thesis using assms True
      by (auto simp: after_rescan_def auth_connect_missing_def heap_shrinks_refl)
  next
    case (Some ents)
    then have "connect_entries env (s\<lparr>auth_reconnect := True\<rparr>) ents = Inr s1"
      using assms True by (simp add: after_rescan_def auth_connect_missing_def)
    then show ?thesis using connect_entries_effect by fastforce
  qed
qed

lemma reply_effect:
  assumes "auth_handle_reply s c reply = Inr s'"
  shows "heap_shrinks (request_heap s') (request_heap s)
         \<and> request_id_counter s' = request_id_counter s"
  using assms
  by (auto simp: auth_handle_reply_def Let_def store_conn_fields heap_shrinks_refl
      heap_shrinks_remove split: option.splits if_splits)

lemma abort_effect:
  assumes "auth_abort_request s request = Inr s'"
  shows "heap_shrinks (request_heap s') (request_heap s)
         \<and> request_id_counter s' = request_id_counter s"
  using assms
  by (auto simp: auth_abort_request_def Let_def store_conn_fields heap_shrinks_remove
      split: option.splits if_splits)

lemma get_effect:
  assumes "auth_connection_get s m sz = (r, error, s')"
  shows "request_heap s' = request_heap s \<and> request_id_counter s' = request_id_counter s
         \<and> next_addr s' = next_addr s"
  using assms
  by (auto simp: auth_connection_get_def split: prod.splits option.splits if_splits)

text \<open>What a call of \<open>auth_init_request\<close> does to the counter and to the requests on the heap.\<close>

lemma init_request_effect:
  assumes "auth_init_request env s m protocol cb ctx = Inr (ok, error, request, s')"
  shows "(\<not> ok \<longrightarrow> heap_shrinks (request_heap s') (request_heap s)
                  \<and> request_id_counter s' = request_id_counter s)
       \<and> (ok \<longrightarrow> request_id_counter s'
                   = (if request_id_counter s + 1 = 0 then request_id_counter s + 1 + 1
                      else request_id_counter s + 1)
                \<and> (\<exists>a. request = Some a
                      \<and> (\<forall>b rq. request_heap s' b = Some rq \<longrightarrow>
                            (if b = a then id_req rq = request_id_counter s'
                             else request_heap s b = Some rq))))"
proof -
  obtain s1 where r: "after_rescan env s = Inr s1"
    using assms by (cases "after_rescan env s") (auto simp: auth_init_request_def after_rescan_def)
  note e1 = after_rescan_effect [OF r]
  obtain n error2 s2 where g: "auth_connection_get s1 m (request_new_size env) = (n, error2, s2)"
    by (cases "auth_connection_get s1 m (request_new_size env)")
  note e2 = get_effect [OF g]
  show ?thesis
  proof (cases n)
    case None
    then have "ok = False" and "s' = s2"
      using assms r g by (auto simp: auth_init_request_def after_rescan_def)
    then show ?thesis using e1 e2 by simp
  next
    case (Some node)
    obtain c x where node: "node = (c, x)" by (cases node)
    let ?id = "if request_id_counter s2 + 1 = 0 then request_id_counter s2 + 1 + 1
               else request_id_counter s2 + 1"
    let ?rq = "\<lparr>mech = m, conn = c, id_req = ?id, callback = cb, context_req = ctx\<rparr>"
    let ?s3 = "s2\<lparr>next_addr := next_addr s2 + 1, request_id_counter := ?id,
                  request_heap := (request_heap s2)(next_addr s2 \<mapsto> ?rq)\<rparr>"
    let ?s4 = "store_conn ?s3 c
                 (x\<lparr>conn_requests := hash_insert (conn_requests x) ?id (next_addr s2)\<rparr>)"
    have h4: "request_heap ?s4 = (request_heap s2)(next_addr s2 \<mapsto> ?rq)"
      and c4: "request_id_counter ?s4 = ?id"
      by (simp_all add: store_conn_fields)
    have fin: "ok \<and> request = Some (next_addr s2)
               \<and> heap_shrinks (request_heap s') (request_heap ?s4)
               \<and> request_id_counter s' = ?id"
    proof (cases "send_fails env (conn_fd x)")
      case False
      then have "ok \<and> request = Some (next_addr s2)
                 \<and> s' = ?s4\<lparr>sent := sent ?s4 @ [(conn_fd x, Request_new protocol m ?id)]\<rparr>"
        using assms r g Some node
        by (auto simp: auth_init_request_def after_rescan_def Let_def)
      then show ?thesis using c4 by (simp add: heap_shrinks_refl)
    next
      case True
      then have d: "auth_connection_destroy ?s4 c = Inr s'" and "ok"
        and "request = Some (next_addr s2)"
        using assms r g Some node
        by (auto simp: auth_init_request_def after_rescan_def Let_def split: sum.splits)
      then show ?thesis using destroy_effect [OF d] c4 by simp
    qed
    have cnt: "request_id_counter s' = (if request_id_counter s + 1 = 0
                 then request_id_counter s + 1 + 1 else request_id_counter s + 1)"
      using fin e1 e2 by simp
    have "\<forall>b rq. request_heap s' b = Some rq \<longrightarrow>
            (if b = next_addr s2 then id_req rq = request_id_counter s'
             else request_heap s b = Some rq)"
    proof (intro allI impI)
      fix b rq assume "request_heap s' b = Some rq"
      then have in4: "((request_heap s2)(next_addr s2 \<mapsto> ?rq)) b = Some rq"
        using fin h4 by (simp add: heap_shrinks_def)
      show "if b = next_addr s2 then id_req rq = request_id_counter s'
            else request_heap s b = Some rq"
      proof (cases "b = next_addr s2")
        case True
        then have "rq = ?rq" using in4 by simp
        then show ?thesis using True fin by simp
      next
        case False
        then have "request_heap s1 b = Some rq" using in4 e2 by simp
        then show ?thesis using False e1 by (simp add: heap_shrinks_def)
      qed
    qed
    then show ?thesis using fin cnt by blast
  qed
qed

lemma ids_ok_shrink:
  assumes "ids_in_use_ok s" and "heap_shrinks (request_heap s') (request_heap s)"
    and "request_id_counter s' = request_id_counter s"
  shows "ids_in_use_ok s'"
  using assms unfolding ids_in_use_ok_def heap_shrinks_def by metis

lemma word_inc_less:
  fixes c :: uint32
  assumes "c + 1 \<noteq> 0"
  shows "c < c + 1"
proof -
  have "unat (1 + c) = Suc (unat c)" using assms by (simp add: unatSuc add.commute)
  then show ?thesis by (simp add: word_less_nat_alt add.commute)
qed

lemma ids_ok_init:
  assumes ok: "ids_in_use_ok s" and nowrap: "request_id_counter s + 1 \<noteq> 0"
    and run: "auth_init_request env s m protocol cb ctx = Inr (True, error, request, s')"
  shows "ids_in_use_ok s'"
proof -
  from init_request_effect [OF run] nowrap obtain a where
    cnt: "request_id_counter s' = request_id_counter s + 1"
    and heap: "\<forall>b rq. request_heap s' b = Some rq \<longrightarrow>
                 (if b = a then id_req rq = request_id_counter s'
                  else request_heap s b = Some rq)"
    by auto
  have lt: "request_id_counter s < request_id_counter s'"
    using word_inc_less [OF nowrap] cnt by simp
  have old: "\<And>b rq. request_heap s b = Some rq \<Longrightarrow>
               id_req rq \<noteq> 0 \<and> id_req rq \<le> request_id_counter s"
    using ok unfolding ids_in_use_ok_def by blast
  have each: "\<And>b rq. request_heap s' b = Some rq \<Longrightarrow>
                id_req rq \<noteq> 0 \<and> id_req rq \<le> request_id_counter s'"
  proof -
    fix b rq assume h: "request_heap s' b = Some rq"
    show "id_req rq \<noteq> 0 \<and> id_req rq \<le> request_id_counter s'"
    proof (cases "b = a")
      case True
      then have "id_req rq = request_id_counter s'" using heap h by auto
      then show ?thesis using cnt nowrap by simp
    next
      case False
      then have "request_heap s b = Some rq" using heap h by auto
      then show ?thesis using old lt by fastforce
    qed
  qed
  have pair: "\<And>b b' rq rq'. request_heap s' b = Some rq \<Longrightarrow> request_heap s' b' = Some rq' \<Longrightarrow>
                 b \<noteq> b' \<Longrightarrow> id_req rq \<noteq> id_req rq'"
  proof -
    fix b b' rq rq'
    assume h: "request_heap s' b = Some rq" and h': "request_heap s' b' = Some rq'"
      and ne: "b \<noteq> b'"
    show "id_req rq \<noteq> id_req rq'"
    proof (cases "b = a")
      case True
      then have i: "id_req rq = request_id_counter s'" using heap h by auto
      have "request_heap s b' = Some rq'" using heap h' ne True by auto
      then have "id_req rq' \<le> request_id_counter s" using old by blast
      then show ?thesis using i lt by auto
    next
      case False
      then have o: "request_heap s b = Some rq" using heap h by auto
      show ?thesis
      proof (cases "b' = a")
        case True
        then have i: "id_req rq' = request_id_counter s'" using heap h' by auto
        have "id_req rq \<le> request_id_counter s" using old o by blast
        then show ?thesis using i lt by auto
      next
        case nb: False
        then have "request_heap s b' = Some rq'" using heap h' by auto
        then show ?thesis using ok o ne unfolding ids_in_use_ok_def by blast
      qed
    qed
  qed
  show ?thesis unfolding ids_in_use_ok_def using each pair by blast
qed

lemma step_ids:
  assumes ok: "ids_in_use_ok s" and st: "auth_step env s op = Inr s'"
    and room: "unat (request_id_counter s) + (if is_init_request op then 1 else 0) < 2 ^ 32"
  shows "ids_in_use_ok s'
         \<and> unat (request_id_counter s')
             \<le> unat (request_id_counter s) + (if is_init_request op then 1 else 0)"
proof (cases op)
  case (Reply c reply)
  then show ?thesis using ok st reply_effect [of s c reply s'] ids_ok_shrink by auto
next
  case (Abort_request request)
  then show ?thesis using ok st abort_effect [of s request s'] ids_ok_shrink by auto
next
  case (Init_request m protocol cb ctx)
  then obtain okv error request where
    run: "auth_init_request env s m protocol cb ctx = Inr (okv, error, request, s')"
    using st by (auto split: sum.splits)
  have nowrap: "request_id_counter s + 1 \<noteq> 0"
  proof
    assume "request_id_counter s + 1 = 0"
    then have "request_id_counter s = - 1" by (simp add: add_eq_0_iff2)
    then have "unat (request_id_counter s) = 2 ^ 32 - 1"
      by (simp add: unsigned_minus_1_eq_mask mask_eq_exp_minus_1)
    then show False using room Init_request by simp
  qed
  show ?thesis
  proof (cases okv)
    case False
    then show ?thesis using init_request_effect [OF run] ok ids_ok_shrink by auto
  next
    case True
    then have "auth_init_request env s m protocol cb ctx = Inr (True, error, request, s')"
      using run by simp
    then have a: "ids_in_use_ok s'" by (rule ids_ok_init [OF ok nowrap])
    have "request_id_counter s' = request_id_counter s + 1"
      using init_request_effect [OF run] True nowrap by auto
    then have "unat (request_id_counter s') = Suc (unat (request_id_counter s))"
      using nowrap by (simp add: unatSuc add.commute)
    then show ?thesis using a Init_request by simp
  qed
qed

lemma run_ids:
  "ids_in_use_ok s \<Longrightarrow> auth_run env s ops = Inr s' \<Longrightarrow>
   unat (request_id_counter s) + length (filter is_init_request ops) < 2 ^ 32 \<Longrightarrow>
     ids_in_use_ok s'"
proof (induction ops arbitrary: s)
  case Nil
  then show ?case by simp
next
  case (Cons op ops)
  then obtain s1 where a: "auth_step env s op = Inr s1" and b: "auth_run env s1 ops = Inr s'"
    by (auto split: sum.splits)
  have room: "unat (request_id_counter s) + (if is_init_request op then 1 else 0) < 2 ^ 32"
    using Cons.prems(3) by (auto split: if_splits)
  have s1: "ids_in_use_ok s1"
    and c1: "unat (request_id_counter s1)
               \<le> unat (request_id_counter s) + (if is_init_request op then 1 else 0)"
    using step_ids [OF Cons.prems(1) a room] by simp_all
  have "unat (request_id_counter s1) + length (filter is_init_request ops) < 2 ^ 32"
    using c1 Cons.prems(3) by (auto split: if_splits)
  then show ?case using Cons.IH [OF s1 b] by simp
qed

lemmas ids_demo_simps =
  rq_first_def one_outstanding_def auth_one_def auth_after_run_def auth_wrapped_def

lemmas step_simps =
  auth_simps auth_handle_reply_def auth_abort_request_def after_rescan_def

lemma demo_first_request:
  "auth_init_request auth_env0 auth_ready 1 0 10 20 = Inr (True, None, Some 1, auth_one)"
  by (simp add: ids_demo_simps auth_demo_simps step_simps)

lemma demo_run:
  "auth_run auth_env0 auth_ready
     [Init_request 1 0 10 20, Init_request 1 0 11 21,
      Reply 0 \<lparr>reply_id = 1, reply_result = AUTH_LOGIN_RESULT_OK, reply_data = ''''\<rparr>]
   = Inr auth_after_run"
  apply (simp add: ids_demo_simps auth_demo_simps step_simps)
  apply (simp add: numeral_2_eq_2)
  done

lemma demo_wrap:
  "1 < a \<Longrightarrow> auth_init_request auth_env0 (one_outstanding (- 1) a snt) 1 0 12 22
     = Inr (True, None, Some a, auth_wrapped a snt)"
  by (simp add: ids_demo_simps auth_demo_simps step_simps)

lemma churn_pair:
  assumes "c \<noteq> 0" and "c + 1 \<noteq> 0" and "1 < a"
  shows "auth_run auth_env0 (one_outstanding c a snt) [Init_request 1 0 12 22, Abort_request a]
           = Inr (one_outstanding (c + 1) (a + 1) (snt @ [(5, Request_new 0 1 (c + 1))]))"
  using assms
  by (simp add: ids_demo_simps auth_demo_simps step_simps)

lemma run_append:
  "auth_run env s ops = Inr s1 \<Longrightarrow> auth_run env s (ops @ ops') = auth_run env s1 ops'"
  by (induction ops arbitrary: s) (auto split: sum.splits)

lemma churn_ops_Suc:
  "churn_ops a (Suc n) = [Init_request 1 0 12 22, Abort_request a] @ churn_ops (Suc a) n"
  by (simp add: churn_ops_def upt_conv_Cons)

lemma churn_sent_Suc:
  "churn_sent c (Suc n) = (5, Request_new 0 1 (c + 1)) # churn_sent (c + 1) n"
proof -
  have "[0..<Suc n] = 0 # map Suc [0..<n]"
    by (simp add: upt_conv_Cons map_Suc_upt del: upt_Suc)
  then show ?thesis
    by (simp add: churn_sent_def comp_def add.assoc add.commute del: upt_Suc)
qed

lemma churn_run:
  "c \<noteq> 0 \<Longrightarrow> unat c + n < 2 ^ 32 \<Longrightarrow> 1 < a \<Longrightarrow>
     auth_run auth_env0 (one_outstanding c a snt) (churn_ops a n)
       = Inr (one_outstanding (c + of_nat n) (a + n) (snt @ churn_sent c n))"
proof (induction n arbitrary: c a snt)
  case 0
  then show ?case by (simp add: churn_ops_def churn_sent_def)
next
  case (Suc n)
  have nz: "c + 1 \<noteq> 0"
  proof
    assume "c + 1 = 0"
    then have "c = - 1" by (simp add: add_eq_0_iff2)
    then have "unat c = 2 ^ 32 - 1"
      by (simp add: unsigned_minus_1_eq_mask mask_eq_exp_minus_1)
    then show False using Suc.prems(2) by simp
  qed
  have u: "unat (c + 1) = Suc (unat c)" using nz by (simp add: unatSuc add.commute)
  have pair: "auth_run auth_env0 (one_outstanding c a snt)
                [Init_request 1 0 12 22, Abort_request a]
              = Inr (one_outstanding (c + 1) (a + 1) (snt @ [(5, Request_new 0 1 (c + 1))]))"
    by (rule churn_pair [OF Suc.prems(1) nz Suc.prems(3)])
  have rest: "auth_run auth_env0
                (one_outstanding (c + 1) (a + 1) (snt @ [(5, Request_new 0 1 (c + 1))]))
                (churn_ops (a + 1) n)
              = Inr (one_outstanding (c + 1 + of_nat n) (a + 1 + n)
                       ((snt @ [(5, Request_new 0 1 (c + 1))]) @ churn_sent (c + 1) n))"
    by (rule Suc.IH) (use nz u Suc.prems in auto)
  show ?case
    using run_append [OF pair, of "churn_ops (Suc a) n"] rest
    by (simp add: churn_ops_Suc churn_sent_Suc add.assoc add.commute add.left_commute
        del: auth_run.simps)
qed

text \<open>
  Claim C8, as the code has it. The id of a new request is the counter after it has been
  incremented (and incremented once more when that gives 0), so it is never 0, and the
  counter wraps around at \<open>2 ^ 32\<close>. As long as the counter has not wrapped (its value
  plus the number of requests still to be made stays below \<open>2 ^ 32\<close>), after every
  sequence of new requests, replies and aborts no outstanding request has id 0 and no
  two outstanding requests, on one connection or on different ones, have the same id.
\<close>

theorem request_ids_unique_until_wrap:
  "(auth_init_request env s m protocol cb ctx = Inr (True, error, request, s') \<longrightarrow>
      request_id_counter s' \<noteq> 0
      \<and> request_id_counter s'
          = (if request_id_counter s + 1 = 0 then 1 else request_id_counter s + 1)
      \<and> (\<exists>a. request = Some a
            \<and> (\<forall>rq. request_heap s' a = Some rq \<longrightarrow> id_req rq = request_id_counter s')))
   \<and> (ids_in_use_ok s \<and> auth_run env s ops = Inr s2
        \<and> unat (request_id_counter s) + length (filter is_init_request ops) < 2 ^ 32 \<longrightarrow>
      (\<forall>a rq. request_heap s2 a = Some rq \<longrightarrow> id_req rq \<noteq> 0)
      \<and> (\<forall>a b rq rq'. request_heap s2 a = Some rq \<and> request_heap s2 b = Some rq' \<and> a \<noteq> b
             \<longrightarrow> id_req rq \<noteq> id_req rq'))"
proof (intro conjI impI)
  assume run: "auth_init_request env s m protocol cb ctx = Inr (True, error, request, s')"
  from init_request_effect [OF run] obtain a where
    cnt: "request_id_counter s' = (if request_id_counter s + 1 = 0
            then request_id_counter s + 1 + 1 else request_id_counter s + 1)"
    and rq: "request = Some a"
    and heap: "\<forall>b rq. request_heap s' b = Some rq \<longrightarrow>
                 (if b = a then id_req rq = request_id_counter s'
                  else request_heap s b = Some rq)"
    by auto
  show "request_id_counter s' \<noteq> 0" using cnt by (auto split: if_splits)
  show "request_id_counter s'
          = (if request_id_counter s + 1 = 0 then 1 else request_id_counter s + 1)"
    using cnt by (auto split: if_splits)
  have "\<forall>rq. request_heap s' a = Some rq \<longrightarrow> id_req rq = request_id_counter s'"
    using heap by auto
  then show "\<exists>a. request = Some a
            \<and> (\<forall>rq. request_heap s' a = Some rq \<longrightarrow> id_req rq = request_id_counter s')"
    using rq by blast
next
  assume h: "ids_in_use_ok s \<and> auth_run env s ops = Inr s2
        \<and> unat (request_id_counter s) + length (filter is_init_request ops) < 2 ^ 32"
  then have ok: "ids_in_use_ok s2" using run_ids [of s env ops s2] by blast
  show "\<forall>a rq. request_heap s2 a = Some rq \<longrightarrow> id_req rq \<noteq> 0"
    using ok unfolding ids_in_use_ok_def by blast
  show "\<forall>a b rq rq'. request_heap s2 a = Some rq \<and> request_heap s2 b = Some rq' \<and> a \<noteq> b
             \<longrightarrow> id_req rq \<noteq> id_req rq'"
    using ok unfolding ids_in_use_ok_def by blast
qed

theorem request_ids_unique_until_wrap_witness:
  "auth_init_request auth_env0 auth_ready 1 0 10 20 = Inr (True, None, Some 1, auth_one)
   \<and> request_id_counter auth_one = 1
   \<and> auth_run auth_env0 auth_ready
        [Init_request 1 0 10 20, Init_request 1 0 11 21,
         Reply 0 \<lparr>reply_id = 1, reply_result = AUTH_LOGIN_RESULT_OK, reply_data = ''''\<rparr>]
      = Inr auth_after_run
   \<and> unat (request_id_counter auth_ready)
        + length (filter is_init_request
            [Init_request 1 0 10 20, Init_request 1 0 11 21,
             Reply 0 \<lparr>reply_id = 1, reply_result = AUTH_LOGIN_RESULT_OK, reply_data = ''''\<rparr>])
       < 2 ^ 32
   \<and> request_heap auth_after_run 2
       = Some \<lparr>mech = 1, conn = 0, id_req = 2, callback = 11, context_req = 21\<rparr>
   \<and> id_req \<lparr>mech = 1, conn = 0, id_req = 2, callback = 11, context_req = 21\<rparr> \<noteq> 0"
proof -
  let ?ops = "[Init_request 1 0 10 20, Init_request 1 0 11 21,
         Reply 0 \<lparr>reply_id = 1, reply_result = AUTH_LOGIN_RESULT_OK, reply_data = ''''\<rparr>]"
  let ?rq = "\<lparr>mech = 1, conn = 0, id_req = 2, callback = 11, context_req = 21\<rparr>"
  have i: "auth_init_request auth_env0 auth_ready 1 0 10 20 = Inr (True, None, Some 1, auth_one)"
    by (rule demo_first_request)
  have o: "ids_in_use_ok auth_ready"
    by (simp add: ids_in_use_ok_def auth_demo_simps)
  have r: "auth_run auth_env0 auth_ready ?ops = Inr auth_after_run" by (rule demo_run)
  have n: "unat (request_id_counter auth_ready) + length (filter is_init_request ?ops) < 2 ^ 32"
    by (simp add: auth_demo_simps)
  have h: "request_heap auth_after_run 2 = Some ?rq" by (simp add: auth_after_run_def)
  note t = request_ids_unique_until_wrap [of auth_env0 auth_ready 1 0 10 20 None "Some 1"
      auth_one ?ops auth_after_run]
  have c: "request_id_counter auth_one = 1" using t i by (simp add: auth_demo_simps)
  have "\<forall>a rq. request_heap auth_after_run a = Some rq \<longrightarrow> id_req rq \<noteq> 0"
    using t o r n by blast
  then have "id_req ?rq \<noteq> 0" using h by blast
  then show ?thesis using i c r n h by blast
qed

text \<open>
  The claim as the specification states it fails. The counter is not post-incremented:
  with the counter at 0 the first request gets id 1. And ids repeat among outstanding
  requests once the counter wraps: the first request (id 1, at address 1) stays
  outstanding while \<open>2 ^ 32 - 2\<close> further requests are made and aborted; the counter is
  then at its last value, and the next request on the same connection skips 0 and gets
  id 1 again.
\<close>

theorem request_id_wrap_counterexample:
  "request_id_counter auth_ready = 0
   \<and> auth_init_request auth_env0 auth_ready 1 0 10 20 = Inr (True, None, Some 1, auth_one)
   \<and> request_heap auth_one 1 = Some rq_first \<and> id_req rq_first = 1
   \<and> auth_run auth_env0 auth_ready
        ([Init_request 1 0 10 20] @ churn_ops 2 (2 ^ 32 - 2) @ [Init_request 1 0 12 22])
      = Inr (auth_wrapped (2 ^ 32) (sent auth_one @ churn_sent 1 (2 ^ 32 - 2)))
   \<and> request_heap (auth_wrapped (2 ^ 32) (sent auth_one @ churn_sent 1 (2 ^ 32 - 2))) 1
       = Some \<lparr>mech = 1, conn = 0, id_req = 1, callback = 10, context_req = 20\<rparr>
   \<and> request_heap (auth_wrapped (2 ^ 32) (sent auth_one @ churn_sent 1 (2 ^ 32 - 2))) (2 ^ 32)
       = Some \<lparr>mech = 1, conn = 0, id_req = 1, callback = 12, context_req = 22\<rparr>"
proof -
  let ?snt = "sent auth_one @ churn_sent 1 (2 ^ 32 - 2)"
  have a: "request_id_counter auth_ready = 0" by (simp add: auth_demo_simps)
  have b: "auth_init_request auth_env0 auth_ready 1 0 10 20 = Inr (True, None, Some 1, auth_one)"
    by (rule demo_first_request)
  have c: "request_heap auth_one 1 = Some rq_first" "id_req rq_first = 1"
    by (simp_all add: ids_demo_simps)
  have one: "auth_one = one_outstanding 1 2 (sent auth_one)"
    by (simp add: auth_one_def one_outstanding_def)
  have first: "auth_run auth_env0 auth_ready [Init_request 1 0 10 20] = Inr auth_one"
    using b by simp
  have raw: "auth_run auth_env0 (one_outstanding 1 2 (sent auth_one)) (churn_ops 2 (2 ^ 32 - 2))
          = Inr (one_outstanding (1 + of_nat (2 ^ 32 - 2)) (2 + (2 ^ 32 - 2)) ?snt)"
    by (rule churn_run) simp_all
  have w: "(1 :: uint32) + of_nat (2 ^ 32 - 2) = - 1" by simp
  have n2: "(2 :: nat) + (2 ^ 32 - 2) = 2 ^ 32" by simp
  have churn: "auth_run auth_env0 auth_one (churn_ops 2 (2 ^ 32 - 2))
          = Inr (one_outstanding (- 1) (2 ^ 32) ?snt)"
    using raw by (simp only: w n2 one [symmetric])
  have last: "auth_run auth_env0 (one_outstanding (- 1) (2 ^ 32) ?snt) [Init_request 1 0 12 22]
          = Inr (auth_wrapped (2 ^ 32) ?snt)"
    using demo_wrap [of "2 ^ 32" ?snt] by simp
  have d: "auth_run auth_env0 auth_ready
        ([Init_request 1 0 10 20] @ churn_ops 2 (2 ^ 32 - 2) @ [Init_request 1 0 12 22])
      = Inr (auth_wrapped (2 ^ 32) ?snt)"
    using run_append [OF first, of "churn_ops 2 (2 ^ 32 - 2) @ [Init_request 1 0 12 22]"]
      run_append [OF churn, of "[Init_request 1 0 12 22]"] last
    by (simp del: auth_run.simps)
  have e: "request_heap (auth_wrapped (2 ^ 32) ?snt) 1
       = Some \<lparr>mech = 1, conn = 0, id_req = 1, callback = 10, context_req = 20\<rparr>"
    "request_heap (auth_wrapped (2 ^ 32) ?snt) (2 ^ 32)
       = Some \<lparr>mech = 1, conn = 0, id_req = 1, callback = 12, context_req = 22\<rparr>"
    by (simp_all add: auth_wrapped_def rq_first_def)
  show ?thesis using a b c d e by blast
qed

end
